theory Spec2Isabelle
  imports Complex_Main
begin

section \<open>Data model (src/lib/types.ts, src/lib/memory.ts)\<close>

text \<open>
  JavaScript strings are modelled as \<open>string\<close>; one character of the model stands for
  one UTF-16 code unit, so \<open>length\<close> is the \<open>.length\<close> of the source.  SQLite's
  \<open>REAL\<close> columns and JavaScript numbers are modelled as \<open>real\<close>: the comparisons
  and products of the source are read as exact arithmetic.

  A JSON value, as \<open>request.json()\<close> returns it.
\<close>

datatype json =
    JNull
  | JBool bool
  | JNum real
  | JStr string
  | JArr "json list"
  | JObj "(string \<times> json) list"

text \<open>
  A row of the table \<open>memories\<close> (interface \<open>MemoryRow\<close>, plus SQLite's implicit
  \<open>rowid\<close> column, which the full-text index joins on).  The column \<open>type\<close> has no
  \<open>NOT NULL\<close> constraint.  The column \<open>metadata\<close> holds \<open>JSON.stringify(metadata)\<close>
  and is read back through \<open>JSON.parse\<close>; the model keeps the JSON value itself.
\<close>

record MemoryRow =
  rowid :: nat
  row_id :: string
  row_content :: string
  row_type :: "string option"
  row_importance :: real
  row_activation :: real
  row_created_at :: string
  row_last_accessed :: "string option"
  row_metadata :: "json option"

text \<open>The object of the API (interface \<open>Memory\<close>); an absent field is \<open>None\<close>.\<close>

record Memory =
  mem_id :: string
  mem_content :: string
  mem_type :: "string option"
  mem_importance :: real
  mem_activation :: real
  mem_created_at :: string
  mem_last_accessed :: "string option"
  mem_metadata :: "json option"

record RecallResponse =
  results :: "Memory list"
  took_ms :: int

record StoreResponse =
  store_id :: string
  store_success :: bool

record ConsolidateStats =
  memories_before :: nat
  memories_after :: nat
  merged :: nat
  forgotten :: nat

record ConsolidateResponse =
  consolidated :: bool
  stats :: ConsolidateStats

text \<open>
  One user's database file: the table \<open>memories\<close> in insertion order and the rows
  \<open>(rowid, content)\<close> of the full-text table \<open>memories_fts\<close>.
\<close>

record db =
  memories :: "MemoryRow list"
  memories_fts :: "(nat \<times> string) list"

text \<open>What a statement of the service can throw.\<close>

datatype error =
    SqliteConstraint
  | SqliteError
  | SqliteMismatch
  | TypeError
  | MissingSupabaseEnv

section \<open>The SQL statements of the service\<close>

text \<open>\<open>UPDATE t SET ... WHERE p\<close>: every row that satisfies \<open>p\<close> is rewritten.\<close>

definition sql_update :: "('r \<Rightarrow> bool) \<Rightarrow> ('r \<Rightarrow> 'r) \<Rightarrow> 'r list \<Rightarrow> 'r list" where
  "sql_update p f t = map (\<lambda>r. if p r then f r else r) t"

text \<open>\<open>DELETE FROM t WHERE p\<close>: the rows kept, and the rows deleted (\<open>changes\<close> counts them).\<close>

definition sql_delete :: "('r \<Rightarrow> bool) \<Rightarrow> 'r list \<Rightarrow> 'r list \<times> 'r list" where
  "sql_delete p t = (filter (\<lambda>r. \<not> p r) t, filter p t)"

text \<open>
  The trigger \<open>memories_ad\<close>: after a row of \<open>memories\<close> is deleted, the index entry
  \<open>(old.rowid, old.content)\<close> is removed.
\<close>

definition memories_ad :: "MemoryRow list \<Rightarrow> (nat \<times> string) list \<Rightarrow> (nat \<times> string) list" where
  "memories_ad deleted fts =
     filter (\<lambda>e. e \<notin> set (map (\<lambda>old. (rowid old, row_content old)) deleted)) fts"

text \<open>
  The trigger \<open>memories_ai\<close>: after a row is inserted, \<open>(new.rowid, new.content)\<close> is
  added to the index.
\<close>

definition memories_ai :: "MemoryRow \<Rightarrow> (nat \<times> string) list \<Rightarrow> (nat \<times> string) list" where
  "memories_ai new fts = fts @ [(rowid new, row_content new)]"

section \<open>MemoryService.consolidate\<close>

text \<open>
  \<open>getDb\<close> opens the file and creates the schema if it is missing; an existing database is
  returned as it is.
\<close>

definition consolidate :: "db \<Rightarrow> ConsolidateResponse \<times> db" where
  "consolidate d =
     (let beforeCount = length (memories d);
          decayed = sql_update (\<lambda>r. row_activation r > 0.01)
                      (\<lambda>r. r\<lparr>row_activation := row_activation r * 0.95\<rparr>) (memories d);
          (kept, deleted) = sql_delete (\<lambda>r. row_activation r < 0.01) decayed;
          d' = \<lparr>memories = kept, memories_fts = memories_ad deleted (memories_fts d)\<rparr>;
          afterCount = length (memories d')
      in (\<lparr>consolidated = True,
           stats = \<lparr>memories_before = beforeCount, memories_after = afterCount,
                     merged = 0, forgotten = length deleted\<rparr>\<rparr>, d'))"

section \<open>MemoryService.store\<close>

text \<open>
  An argument of a JavaScript call: \<open>Undefined\<close> takes the parameter's default, \<open>Null\<close> is
  bound as SQL \<open>NULL\<close>, and \<open>NotBindable\<close> is a value the driver refuses to bind (a
  boolean), on which the statement throws.
\<close>

datatype 'a arg = Undefined | Null | Value 'a | NotBindable

text \<open>
  JavaScript truthiness of a JSON value (\<open>metadata ? ... : null\<close>, \<open>body.type && ...\<close>).
\<close>

fun truthy :: "json \<Rightarrow> bool" where
  "truthy JNull = False"
| "truthy (JBool b) = b"
| "truthy (JNum x) = (x \<noteq> 0)"
| "truthy (JStr s) = (s \<noteq> [])"
| "truthy (JArr xs) = True"
| "truthy (JObj kvs) = True"

text \<open>
  The rowid SQLite gives a new row of a table without \<open>AUTOINCREMENT\<close>: one more than the
  largest rowid in the table, 1 in an empty table.
\<close>

definition next_rowid :: "MemoryRow list \<Rightarrow> nat" where
  "next_rowid t = Suc (fold max (map rowid t) 0)"

text \<open>
  \<open>INSERT OR IGNORE INTO memories_fts(rowid, content)\<close>: a row whose rowid is already in
  the table is left out.  The index answers a query with each rowid at most once, so a second
  insert for a rowid never makes its row match twice.
\<close>

definition fts_insert_or_ignore :: "nat \<times> string \<Rightarrow> (nat \<times> string) list \<Rightarrow> (nat \<times> string) list" where
  "fts_insert_or_ignore e fts = (if fst e \<in> set (map fst fts) then fts else fts @ [e])"

text \<open>
  \<open>store\<close>.  \<open>uuid\<close> is the value of \<open>crypto.randomUUID()\<close> and \<open>now\<close> that of
  \<open>new Date().toISOString()\<close>.  \<open>id\<close> is the primary key: the \<open>INSERT\<close> throws when
  the id is already in the table.  The trigger and the manual insert both feed the index;
  a failure of the manual insert is caught and ignored.
\<close>

definition store ::
  "string \<Rightarrow> string \<Rightarrow> string \<Rightarrow> string arg \<Rightarrow> real option \<Rightarrow> json option \<Rightarrow> db
     \<Rightarrow> error + (StoreResponse \<times> db)" where
  "store uuid now content type importance metadata d =
     (let type' = (case type of Undefined \<Rightarrow> Some ''factual'' | Null \<Rightarrow> None
                   | Value t \<Rightarrow> Some t | NotBindable \<Rightarrow> None);
          importance' = (case importance of None \<Rightarrow> 0.5 | Some i \<Rightarrow> i);
          metadata' = (case metadata of None \<Rightarrow> None
                       | Some j \<Rightarrow> if truthy j then Some j else None)
      in if type = NotBindable then Inl TypeError
         else if uuid \<in> set (map row_id (memories d)) then Inl SqliteConstraint
         else
           let new = \<lparr>rowid = next_rowid (memories d), row_id = uuid, row_content = content,
                      row_type = type', row_importance = importance', row_activation = 1.0,
                      row_created_at = now, row_last_accessed = None,
                      row_metadata = metadata'\<rparr>;
               d1 = \<lparr>memories = memories d @ [new],
                     memories_fts = memories_ai new (memories_fts d)\<rparr>;
               d2 = (case find (\<lambda>r. row_id r = uuid) (memories d1) of
                       None \<Rightarrow> d1
                     | Some row \<Rightarrow>
                         d1\<lparr>memories_fts :=
                              fts_insert_or_ignore (rowid row, content) (memories_fts d1)\<rparr>)
           in Inr (\<lparr>store_id = uuid, store_success = True\<rparr>, d2))"

section \<open>MemoryService.recall\<close>

definition ascii_lower :: "char \<Rightarrow> char" where
  "ascii_lower c =
     (let n = (of_char c :: nat) in if 65 \<le> n \<and> n \<le> 90 then char_of (n + 32) else c)"

text \<open>
  SQLite's \<open>LIKE\<close>, pattern first: \<open>%\<close> matches any run of characters, \<open>_\<close> any one
  character, and letters of ASCII match without regard to case.  (SQLite counts characters;
  they are the code units of the model for text of the Basic Multilingual Plane.)
\<close>

fun like :: "string \<Rightarrow> string \<Rightarrow> bool" where
  "like [] [] = True"
| "like [] (c # s) = False"
| "like (p # ps) [] = (p = CHR ''%'' \<and> like ps [])"
| "like (p # ps) (c # s) =
     (if p = CHR ''%'' then like ps (c # s) \<or> like (p # ps) s
      else (p = CHR ''_'' \<or> ascii_lower p = ascii_lower c) \<and> like ps s)"

text \<open>
  \<open>LIMIT ?\<close>: a value that is not an integer is a datatype mismatch, a negative value
  means no bound.
\<close>

definition sql_limit :: "real \<Rightarrow> 'r list \<Rightarrow> error + 'r list" where
  "sql_limit l t =
     (if of_int \<lfloor>l\<rfloor> \<noteq> l then Inl SqliteMismatch
      else if l < 0 then Inr t
      else Inr (take (nat \<lfloor>l\<rfloor>) t))"

text \<open>\<open>ORDER BY activation DESC\<close>.\<close>

definition order_by_activation_desc :: "MemoryRow list \<Rightarrow> MemoryRow list" where
  "order_by_activation_desc t = sort_key (\<lambda>r. - row_activation r) t"

text \<open>
  \<open>type IN (?, ..., ?)\<close>, added to the query only when \<open>types\<close> is given and not empty.
  A \<open>NULL\<close> type is in no list.
\<close>

definition type_filter :: "string list option \<Rightarrow> MemoryRow \<Rightarrow> bool" where
  "type_filter types r =
     (case types of
        None \<Rightarrow> True
      | Some ts \<Rightarrow>
          if length ts > 0
          then (case row_type r of None \<Rightarrow> False | Some t \<Rightarrow> t \<in> set ts)
          else True)"

text \<open>
  The full-text query: \<open>memories\<close> joined with \<open>memories_fts\<close> on the rowid, the index row
  matching the query.  \<open>matches\<close> is the \<open>MATCH\<close> of FTS5 for this query, on the indexed
  content.
\<close>

definition fts_join :: "(string \<Rightarrow> bool) \<Rightarrow> db \<Rightarrow> MemoryRow list" where
  "fts_join matches d =
     concat (map (\<lambda>m. map (\<lambda>e. m)
                         (filter (\<lambda>e. rowid m = fst e \<and> matches (snd e)) (memories_fts d)))
                 (memories d))"

text \<open>
  The statement \<open>UPDATE memories SET last_accessed = ?, activation = MIN(activation * 1.1,
  1.0) WHERE id = ?\<close>.
\<close>

definition updateStmt :: "string \<Rightarrow> string \<Rightarrow> db \<Rightarrow> db" where
  "updateStmt now i d =
     d\<lparr>memories :=
         sql_update (\<lambda>r. row_id r = i)
           (\<lambda>r. r\<lparr>row_last_accessed := Some now,
                   row_activation := min (row_activation r * 1.1) 1.0\<rparr>)
           (memories d)\<rparr>"

text \<open>The object built from a row; an empty string is falsy, as \<open>null\<close> is.\<close>

definition to_memory :: "MemoryRow \<Rightarrow> Memory" where
  "to_memory row =
     \<lparr>mem_id = row_id row, mem_content = row_content row, mem_type = row_type row,
      mem_importance = row_importance row, mem_activation = row_activation row,
      mem_created_at = row_created_at row,
      mem_last_accessed =
        (case row_last_accessed row of None \<Rightarrow> None
         | Some s \<Rightarrow> if s = [] then None else Some s),
      mem_metadata = row_metadata row\<rparr>"

text \<open>
  What \<open>recall\<close> reads from outside: the FTS5 engine (\<open>None\<close> for a query it rejects as
  malformed, which throws), and the clock at the three places the source reads it.
\<close>

record recall_env =
  fts5 :: "string \<Rightarrow> (string \<Rightarrow> bool) option"
  startTime :: int
  nowISO :: string
  endTime :: int

definition select_rows :: "recall_env \<Rightarrow> string \<Rightarrow> real \<Rightarrow> string list option \<Rightarrow> db
     \<Rightarrow> error + MemoryRow list" where
  "select_rows env query limit types d =
     (let ftsCount = length (memories_fts d)
      in if ftsCount > 0
         then (case fts5 env query of
                 None \<Rightarrow> Inl SqliteError
               | Some matches \<Rightarrow>
                   sql_limit limit
                     (order_by_activation_desc (filter (type_filter types) (fts_join matches d))))
         else sql_limit limit
                (order_by_activation_desc
                   (filter (type_filter types)
                      (filter (\<lambda>r. like (''%'' @ query @ ''%'') (row_content r)) (memories d)))))"

definition recall :: "recall_env \<Rightarrow> string \<Rightarrow> real \<Rightarrow> string list option \<Rightarrow> db
     \<Rightarrow> error + (RecallResponse \<times> db)" where
  "recall env query limit types d =
     (case select_rows env query limit types d of
        Inl e \<Rightarrow> Inl e
      | Inr rows \<Rightarrow>
          let d' = foldl (\<lambda>d row. updateStmt (nowISO env) (row_id row) d) d rows
          in Inr (\<lparr>results = map to_memory rows, took_ms = endTime env - startTime env\<rparr>, d'))"

section \<open>The database file of a user (getDb, getMemoryService)\<close>

text \<open>
  The files under the storage path, by user identifier.  \<open>getDb\<close> creates the file with
  empty tables when it is missing; each operation closes the handle in its \<open>finally\<close>
  block, so the file stays, also when the operation throws.
\<close>

type_synonym storage = "string \<rightharpoonup> db"

definition empty_db :: db where
  "empty_db = \<lparr>memories = [], memories_fts = []\<rparr>"

definition getDb :: "string \<Rightarrow> storage \<Rightarrow> db" where
  "getDb userId st = (case st userId of None \<Rightarrow> empty_db | Some d \<Rightarrow> d)"

definition with_db :: "string \<Rightarrow> (db \<Rightarrow> error + ('a \<times> db)) \<Rightarrow> storage \<Rightarrow> (error + 'a) \<times> storage" where
  "with_db userId f st =
     (let d = getDb userId st
      in case f d of
           Inl e \<Rightarrow> (Inl e, st(userId \<mapsto> d))
         | Inr (a, d') \<Rightarrow> (Inr a, st(userId \<mapsto> d')))"

text \<open>
  The three operations a route calls on \<open>getMemoryService(auth.userId)\<close>, over a state
  \<open>'s\<close>.
\<close>

record 's MemoryService =
  svc_recall :: "recall_env \<Rightarrow> string \<Rightarrow> real \<Rightarrow> string list option \<Rightarrow> 's
                   \<Rightarrow> (error + RecallResponse) \<times> 's"
  svc_store :: "string \<Rightarrow> string \<Rightarrow> string \<Rightarrow> string arg \<Rightarrow> real option \<Rightarrow> json option \<Rightarrow> 's
                   \<Rightarrow> (error + StoreResponse) \<times> 's"
  svc_consolidate :: "'s \<Rightarrow> (error + ConsolidateResponse) \<times> 's"

definition getMemoryService :: "string \<Rightarrow> storage MemoryService" where
  "getMemoryService userId =
     \<lparr>svc_recall = (\<lambda>env query limit types. with_db userId (recall env query limit types)),
      svc_store = (\<lambda>uuid now content type importance metadata.
                     with_db userId (store uuid now content type importance metadata)),
      svc_consolidate = with_db userId (\<lambda>d. Inr (consolidate d))\<rparr>"

section \<open>Responses (NextResponse.json)\<close>

datatype tier = free | pro | enterprise

record AuthContext =
  auth_userId :: string
  auth_tier :: tier

text \<open>
  The text of an error: a literal of the source, or the template
  \<open>Invalid type "${t}". Valid types: ...\<close> kept with its argument.
\<close>

datatype message = Text string | InvalidType json

text \<open>\<open>details\<close> of the rate-limit error: \<open>retry_after_seconds\<close> and \<open>tier\<close>.\<close>

record ApiError =
  err_error :: message
  err_code :: string
  err_details :: "(nat \<times> tier) option"

datatype payload =
    ErrorJson ApiError
  | StoreJson StoreResponse
  | RecallJson RecallResponse
  | ConsolidateJson ConsolidateResponse

record NextResponse =
  resp_status :: nat
  resp_headers :: "(string \<times> string) list"
  resp_json :: payload

definition api_error :: "message \<Rightarrow> string \<Rightarrow> nat \<Rightarrow> NextResponse" where
  "api_error msg code status =
     \<lparr>resp_status = status, resp_headers = [],
      resp_json = ErrorJson \<lparr>err_error = msg, err_code = code, err_details = None\<rparr>\<rparr>"

text \<open>\<open>NextResponse.json(result)\<close> has status 200 unless one is given.\<close>

definition json_response :: "payload \<Rightarrow> nat \<Rightarrow> NextResponse" where
  "json_response p status = \<lparr>resp_status = status, resp_headers = [], resp_json = p\<rparr>"

text \<open>\<open>headers.set\<close>: header names match without regard to case.\<close>

definition headers_set :: "string \<Rightarrow> string \<Rightarrow> NextResponse \<Rightarrow> NextResponse" where
  "headers_set k v r =
     r\<lparr>resp_headers :=
         filter (\<lambda>h. map ascii_lower (fst h) \<noteq> map ascii_lower k) (resp_headers r) @ [(k, v)]\<rparr>"

record NextRequest =
  req_authorization :: "string option"
  req_pathname :: string
  req_json :: "json option"

text \<open>
  \<open>body.k\<close> for a parsed body: the last entry of an object with that key, \<open>undefined\<close>
  on any other value; on \<open>null\<close> the access throws.
\<close>

definition field :: "json \<Rightarrow> string \<Rightarrow> json option" where
  "field body k = (case body of JObj kvs \<Rightarrow> map_of (rev kvs) k | _ \<Rightarrow> None)"

definition validTypes :: "string list" where
  "validTypes = [''factual'', ''relational'', ''procedural'', ''episodic'', ''semantic'']"

text \<open>\<open>validTypes.includes(t)\<close>: only a string is equal to a string.\<close>

definition valid_type :: "json \<Rightarrow> bool" where
  "valid_type t = (case t of JStr s \<Rightarrow> s \<in> set validTypes | _ \<Rightarrow> False)"

section \<open>The store route (src/app/api/v1/memory/store/route.ts)\<close>

text \<open>
  The argument \<open>body.type\<close> as the statement binds it.  After the validation it is
  \<open>undefined\<close>, a valid type, or a falsy value: the empty string, \<open>null\<close>, the number 0
  (stored as text in a \<open>TEXT\<close> column) or \<open>false\<close>, which the driver refuses to bind.
\<close>

definition type_arg :: "json option \<Rightarrow> string arg" where
  "type_arg t =
     (case t of
        None \<Rightarrow> Undefined
      | Some JNull \<Rightarrow> Null
      | Some (JStr s) \<Rightarrow> Value s
      | Some (JNum x) \<Rightarrow> Value ''0''
      | Some _ \<Rightarrow> NotBindable)"

definition store_handler ::
  "(string \<Rightarrow> 's MemoryService) \<Rightarrow> string \<Rightarrow> string \<Rightarrow> NextRequest \<Rightarrow> AuthContext \<Rightarrow> 's
     \<Rightarrow> (error + NextResponse) \<times> 's" where
  \<open>store_handler service uuid now request auth st =
     (case req_json request of
        None \<Rightarrow> (Inr (api_error (Text ''Invalid JSON body'') ''BAD_REQUEST'' 400), st)
      | Some JNull \<Rightarrow> (Inl TypeError, st)
      | Some body \<Rightarrow>
          (case field body ''content'' of
             Some (JStr content) \<Rightarrow>
               if content = [] then
                 (Inr (api_error (Text ''Missing or invalid "content" field'')
                         ''VALIDATION_ERROR'' 400), st)
               else if length content > 10000 then
                 (Inr (api_error (Text ''"content" must be less than 10000 characters'')
                         ''VALIDATION_ERROR'' 400), st)
               else if (case field body ''type'' of None \<Rightarrow> False
                        | Some t \<Rightarrow> truthy t \<and> \<not> valid_type t) then
                 (Inr (api_error (InvalidType (the (field body ''type'')))
                         ''VALIDATION_ERROR'' 400), st)
               else if (case field body ''importance'' of None \<Rightarrow> False
                        | Some (JNum i) \<Rightarrow> i < 0 \<or> i > 1
                        | Some _ \<Rightarrow> True) then
                 (Inr (api_error (Text ''"importance" must be a number between 0 and 1'')
                         ''VALIDATION_ERROR'' 400), st)
               else
                 (let memory = service (auth_userId auth)
                  in case svc_store memory uuid now content (type_arg (field body ''type''))
                            (case field body ''importance'' of
                               Some (JNum i) \<Rightarrow> Some i | _ \<Rightarrow> None)
                            (field body ''metadata'') st of
                       (Inl e, st') \<Rightarrow> (Inl e, st')
                     | (Inr result, st') \<Rightarrow>
                         (Inr (json_response (StoreJson result) 201), st'))
           | _ \<Rightarrow>
               (Inr (api_error (Text ''Missing or invalid "content" field'')
                       ''VALIDATION_ERROR'' 400), st)))\<close>

section \<open>The recall route (src/app/api/v1/memory/recall/route.ts)\<close>

text \<open>\<open>body.limit ?? 10\<close>.\<close>

definition limit_or_default :: "json option \<Rightarrow> json" where
  "limit_or_default l = (case l of None \<Rightarrow> JNum 10 | Some JNull \<Rightarrow> JNum 10 | Some v \<Rightarrow> v)"

text \<open>
  \<open>body.types\<close> as \<open>recall\<close> reads it: a falsy value adds no filter, as an absent one.
\<close>

definition types_arg :: "json option \<Rightarrow> string list option" where
  "types_arg t =
     (case t of
        Some (JArr ts) \<Rightarrow> Some (concat (map (\<lambda>j. case j of JStr s \<Rightarrow> [s] | _ \<Rightarrow> []) ts))
      | _ \<Rightarrow> None)"

definition recall_handler ::
  "(string \<Rightarrow> 's MemoryService) \<Rightarrow> recall_env \<Rightarrow> NextRequest \<Rightarrow> AuthContext \<Rightarrow> 's
     \<Rightarrow> (error + NextResponse) \<times> 's" where
  \<open>recall_handler service env request auth st =
     (case req_json request of
        None \<Rightarrow> (Inr (api_error (Text ''Invalid JSON body'') ''BAD_REQUEST'' 400), st)
      | Some JNull \<Rightarrow> (Inl TypeError, st)
      | Some body \<Rightarrow>
          (case field body ''query'' of
             Some (JStr query) \<Rightarrow>
               if query = [] then
                 (Inr (api_error (Text ''Missing or invalid "query" field'')
                         ''VALIDATION_ERROR'' 400), st)
               else
                 (case limit_or_default (field body ''limit'') of
                    JNum limit \<Rightarrow>
                      if limit < 1 \<or> limit > 100 then
                        (Inr (api_error (Text ''"limit" must be a number between 1 and 100'')
                                ''VALIDATION_ERROR'' 400), st)
                      else if (case field body ''types'' of None \<Rightarrow> False
                               | Some (JArr ts) \<Rightarrow> False
                               | Some t \<Rightarrow> truthy t) then
                        (Inr (api_error (Text ''"types" must be an array'')
                                ''VALIDATION_ERROR'' 400), st)
                      else
                        (case (case field body ''types'' of
                                 Some (JArr ts) \<Rightarrow> find (\<lambda>t. \<not> valid_type t) ts
                               | _ \<Rightarrow> None) of
                           Some t \<Rightarrow>
                             (Inr (api_error (InvalidType t) ''VALIDATION_ERROR'' 400), st)
                         | None \<Rightarrow>
                             (let memory = service (auth_userId auth)
                              in case svc_recall memory env query limit
                                      (types_arg (field body ''types'')) st of
                                   (Inl e, st') \<Rightarrow> (Inl e, st')
                                 | (Inr result, st') \<Rightarrow>
                                     (Inr (json_response (RecallJson result) 200), st')))
                  | _ \<Rightarrow>
                      (Inr (api_error (Text ''"limit" must be a number between 1 and 100'')
                              ''VALIDATION_ERROR'' 400), st))
           | _ \<Rightarrow>
               (Inr (api_error (Text ''Missing or invalid "query" field'')
                       ''VALIDATION_ERROR'' 400), st)))\<close>

section \<open>The consolidate route (src/app/api/v1/memory/consolidate/route.ts)\<close>

definition consolidate_handler ::
  "(string \<Rightarrow> 's MemoryService) \<Rightarrow> NextRequest \<Rightarrow> AuthContext \<Rightarrow> 's
     \<Rightarrow> (error + NextResponse) \<times> 's" where
  "consolidate_handler service request auth st =
     (let memory = service (auth_userId auth)
      in case svc_consolidate memory st of
           (Inl e, st') \<Rightarrow> (Inl e, st')
         | (Inr result, st') \<Rightarrow> (Inr (json_response (ConsolidateJson result) 200), st'))"

section \<open>Supabase and the environment (src/lib/supabase.ts)\<close>

record process_env =
  SUPABASE_URL :: "string option"
  SUPABASE_SERVICE_KEY :: "string option"
  TEST_API_KEY :: "string option"
  RATE_LIMIT_FREE :: "string option"
  RATE_LIMIT_PRO :: "string option"

text \<open>A row of \<open>api_keys\<close> as the lookup selects it: \<open>id, user_id, tier\<close>.\<close>

record ApiKey =
  key_id :: string
  key_user_id :: string
  key_tier :: tier

text \<open>
  The managed service, as the code sees it: the reply \<open>{data, error}\<close> of the key lookup
  for a key hash, the reply \<open>{count, error}\<close> of the usage count for a user since an
  instant (milliseconds), and SHA-256 in hexadecimal.  A reply of the client is either a
  failure, with \<open>error\<close> set and nothing else (\<open>Inl\<close>, the error's message), or a success
  with \<open>error\<close> null (\<open>Inr\<close>); \<open>data\<close> and \<open>count\<close> of a success can be null.
\<close>

record supabase =
  sha256_hex :: "string \<Rightarrow> string"
  select_api_key :: "string \<Rightarrow> string + ApiKey option"
  count_usage :: "string \<Rightarrow> int \<Rightarrow> string + nat option"

text \<open>What the code writes to the managed service; instants in milliseconds.\<close>

datatype supabase_write =
    UpdateLastUsed string int
  | InsertUsageLog string string int

text \<open>\<open>!url\<close>: a variable that is unset or empty is falsy.\<close>

definition unset :: "string option \<Rightarrow> bool" where
  "unset v = (case v of None \<Rightarrow> True | Some s \<Rightarrow> s = [])"

definition getSupabaseAdmin :: "process_env \<Rightarrow> supabase \<Rightarrow> error + supabase" where
  "getSupabaseAdmin env sb =
     (if unset (SUPABASE_URL env) \<or> unset (SUPABASE_SERVICE_KEY env)
      then Inl MissingSupabaseEnv else Inr sb)"

record validation =
  valid :: bool
  user :: "(string \<times> tier) option"
  verror :: "string option"

definition validateApiKey ::
  "process_env \<Rightarrow> supabase \<Rightarrow> int \<Rightarrow> string \<Rightarrow> error + (validation \<times> supabase_write list)" where
  "validateApiKey env sb now apiKey =
     (if \<not> unset (TEST_API_KEY env) \<and> Some apiKey = TEST_API_KEY env
      then Inr (\<lparr>valid = True, user = Some (''test-user'', pro), verror = None\<rparr>, [])
      else
        case getSupabaseAdmin env sb of
          Inl e \<Rightarrow> Inl e
        | Inr supabase \<Rightarrow>
            let keyHash = sha256_hex supabase apiKey
            in case select_api_key supabase keyHash of
                 Inr (Some row) \<Rightarrow>
                   Inr (\<lparr>valid = True, user = Some (key_user_id row, key_tier row),
                         verror = None\<rparr>,
                        [UpdateLastUsed (key_id row) now])
               | _ \<Rightarrow>
                   Inr (\<lparr>valid = False, user = None, verror = Some ''Invalid API key''\<rparr>, []))"

definition logUsage :: "process_env \<Rightarrow> supabase \<Rightarrow> int \<Rightarrow> string \<Rightarrow> string \<Rightarrow> error + supabase_write" where
  "logUsage env sb now userId endpoint =
     (case getSupabaseAdmin env sb of
        Inl e \<Rightarrow> Inl e
      | Inr supabase \<Rightarrow> Inr (InsertUsageLog userId endpoint now))"

subsection \<open>parseInt\<close>

definition is_space :: "char \<Rightarrow> bool" where
  "is_space c = ((of_char c :: nat) \<in> {9, 10, 11, 12, 13, 32})"

definition digit_value :: "char \<Rightarrow> nat option" where
  "digit_value c =
     (let n = (of_char c :: nat)
      in if 48 \<le> n \<and> n \<le> 57 then Some (n - 48)
         else if 97 \<le> n \<and> n \<le> 102 then Some (n - 87)
         else if 65 \<le> n \<and> n \<le> 70 then Some (n - 55)
         else None)"

text \<open>The digits of the longest prefix that is a numeral in the radix.\<close>

fun take_digits :: "nat \<Rightarrow> string \<Rightarrow> nat list" where
  "take_digits radix [] = []"
| "take_digits radix (c # cs) =
     (case digit_value c of
        None \<Rightarrow> []
      | Some v \<Rightarrow> if v < radix then v # take_digits radix cs else [])"

definition digits_value :: "nat \<Rightarrow> nat list \<Rightarrow> nat" where
  "digits_value radix ds = foldl (\<lambda>acc v. acc * radix + v) 0 ds"

text \<open>
  \<open>parseInt(s)\<close> with no radix: leading white space, a sign, a prefix \<open>0x\<close> for radix 16,
  then the digits; \<open>None\<close> is \<open>NaN\<close>.
\<close>

definition parseInt :: "string \<Rightarrow> int option" where
  "parseInt s =
     (let s1 = dropWhile is_space s;
          (neg, s2) = (case s1 of
                         c # cs \<Rightarrow> if c = CHR ''-'' then (True, cs)
                                   else if c = CHR ''+'' then (False, cs) else (False, s1)
                       | [] \<Rightarrow> (False, s1));
          (radix, s3) = (case s2 of
                           a # b # cs \<Rightarrow> if a = CHR ''0'' \<and> (b = CHR ''x'' \<or> b = CHR ''X'')
                                         then (16, cs) else (10, s2)
                         | _ \<Rightarrow> (10, s2));
          ds = take_digits radix s3
      in if ds = [] then None
         else Some (if neg then - int (digits_value radix ds) else int (digits_value radix ds)))"

text \<open>\<open>process.env.V || d\<close>.\<close>

definition or_default :: "string option \<Rightarrow> string \<Rightarrow> string" where
  "or_default v d = (if unset v then d else the v)"

subsection \<open>checkQuota\<close>

text \<open>\<open>remaining\<close> is a JavaScript number: \<open>None\<close> is \<open>NaN\<close>.\<close>

record quota =
  allowed :: bool
  remaining :: "int option"

definition tier_limit :: "process_env \<Rightarrow> tier \<Rightarrow> int option" where
  "tier_limit env t =
     (case t of
        free \<Rightarrow> parseInt (or_default (RATE_LIMIT_FREE env) ''10'')
      | pro \<Rightarrow> parseInt (or_default (RATE_LIMIT_PRO env) ''100'')
      | enterprise \<Rightarrow> Some 1000)"

definition checkQuota :: "process_env \<Rightarrow> supabase \<Rightarrow> int \<Rightarrow> string \<Rightarrow> tier \<Rightarrow> error + quota" where
  "checkQuota env sb now userId t =
     (case getSupabaseAdmin env sb of
        Inl e \<Rightarrow> Inl e
      | Inr supabase \<Rightarrow>
          let oneMinuteAgo = now - 60000
          in case count_usage supabase userId oneMinuteAgo of
               Inl err \<Rightarrow> Inr \<lparr>allowed = True, remaining = Some 0\<rparr>
             | Inr count \<Rightarrow>
                 let limit = tier_limit env t;
                     used = (case count of None \<Rightarrow> 0 | Some c \<Rightarrow> int c);
                     remaining = (case limit of None \<Rightarrow> None
                                  | Some l \<Rightarrow> Some (max 0 (l - used)))
                 in Inr \<lparr>allowed = (case limit of None \<Rightarrow> False | Some l \<Rightarrow> used < l),
                          remaining = remaining\<rparr>)"

section \<open>Authentication (src/lib/auth.ts)\<close>

text \<open>\<open>s.split(' ')\<close>.\<close>

fun split_on :: "char \<Rightarrow> string \<Rightarrow> string list" where
  "split_on sep [] = [[]]"
| "split_on sep (c # cs) =
     (if c = sep then [] # split_on sep cs
      else (case split_on sep cs of
              p # ps \<Rightarrow> (c # p) # ps
            | [] \<Rightarrow> [[c]]))"

definition extractBearerToken :: "NextRequest \<Rightarrow> string option" where
  "extractBearerToken request =
     (case req_authorization request of
        None \<Rightarrow> None
      | Some authHeader \<Rightarrow>
          if authHeader = [] then None
          else (case split_on CHR '' '' authHeader of
                  scheme # token # rest \<Rightarrow>
                    if map ascii_lower scheme \<noteq> ''bearer'' \<or> token = [] then None
                    else Some token
                | _ \<Rightarrow> None))"

text \<open>\<open>toString()\<close> of an integer: its decimal digits.\<close>

definition digit_char :: "nat \<Rightarrow> char" where
  "digit_char k = ''0123456789'' ! k"

fun string_of_nat :: "nat \<Rightarrow> string" where
  "string_of_nat n =
     (if n < 10 then [digit_char n]
      else string_of_nat (n div 10) @ [digit_char (n mod 10)])"

declare string_of_nat.simps [simp del]

definition string_of_int :: "int \<Rightarrow> string" where
  "string_of_int i =
     (if i < 0 then CHR ''-'' # string_of_nat (nat (- i)) else string_of_nat (nat i))"

definition number_toString :: "int option \<Rightarrow> string" where
  "number_toString n = (case n of None \<Rightarrow> ''NaN'' | Some i \<Rightarrow> string_of_int i)"

text \<open>The instants at which the wrapper reads the clock (\<open>Date.now()\<close>), in order.\<close>

record auth_clock =
  t_last_used :: int
  t_quota :: int
  t_reset :: int
  t_log :: int
  t_quota_after :: int

datatype auth_result = AuthOk AuthContext | AuthError NextResponse

text \<open>\<open>Math.ceil(Date.now() / 1000 + 60)\<close>.\<close>

definition rate_limit_reset :: "int \<Rightarrow> int" where
  "rate_limit_reset now = - ((- now) div 1000) + 60"

definition authenticateRequest ::
  "process_env \<Rightarrow> supabase \<Rightarrow> auth_clock \<Rightarrow> NextRequest
     \<Rightarrow> error + (auth_result \<times> supabase_write list)" where
  "authenticateRequest env sb clock request =
     (case extractBearerToken request of
        None \<Rightarrow>
          Inr (AuthError (api_error (Text ''Missing or invalid Authorization header'')
                            ''UNAUTHORIZED'' 401), [])
      | Some apiKey \<Rightarrow>
          (case validateApiKey env sb (t_last_used clock) apiKey of
             Inl e \<Rightarrow> Inl e
           | Inr (validation, writes) \<Rightarrow>
               (case (valid validation, user validation) of
                  (True, Some (uid, t)) \<Rightarrow>
                    (case checkQuota env sb (t_quota clock) uid t of
                       Inl e \<Rightarrow> Inl e
                     | Inr quota \<Rightarrow>
                         if \<not> allowed quota then
                           Inr (AuthError
                                  \<lparr>resp_status = 429,
                                   resp_headers =
                                     [(''X-RateLimit-Remaining'', ''0''),
                                      (''X-RateLimit-Reset'',
                                         string_of_int (rate_limit_reset (t_reset clock))),
                                      (''Retry-After'', ''60'')],
                                   resp_json =
                                     ErrorJson \<lparr>err_error = Text ''Rate limit exceeded'',
                                                err_code = ''RATE_LIMITED'',
                                                err_details = Some (60, t)\<rparr>\<rparr>,
                                writes)
                         else Inr (AuthOk \<lparr>auth_userId = uid, auth_tier = t\<rparr>, writes))
                | _ \<Rightarrow>
                    Inr (AuthError
                           (api_error
                              (Text (case verror validation of
                                       None \<Rightarrow> ''Invalid API key''
                                     | Some m \<Rightarrow> if m = [] then ''Invalid API key'' else m))
                              ''UNAUTHORIZED'' 401),
                         writes))))"

text \<open>
  \<open>withAuth(handler)\<close>.  \<open>sb\<close> is the managed service as the authentication sees it,
  \<open>sb'\<close> as the second quota check sees it, after the usage was logged and the handler
  ran.  An exception of \<open>authenticateRequest\<close> or \<open>logUsage\<close> leaves the wrapper; one of
  the handler or of the second quota check is caught and answered with status 500.
\<close>

definition withAuth ::
  "(NextRequest \<Rightarrow> AuthContext \<Rightarrow> 's \<Rightarrow> (error + NextResponse) \<times> 's)
     \<Rightarrow> process_env \<Rightarrow> supabase \<Rightarrow> supabase \<Rightarrow> auth_clock \<Rightarrow> NextRequest \<Rightarrow> 's
     \<Rightarrow> (error + NextResponse) \<times> supabase_write list \<times> 's" where
  "withAuth handler env sb sb' clock request st =
     (case authenticateRequest env sb clock request of
        Inl e \<Rightarrow> (Inl e, [], st)
      | Inr (AuthError response, writes) \<Rightarrow> (Inr response, writes, st)
      | Inr (AuthOk auth, writes) \<Rightarrow>
          (case logUsage env sb (t_log clock) (auth_userId auth) (req_pathname request) of
             Inl e \<Rightarrow> (Inl e, writes, st)
           | Inr w \<Rightarrow>
               (case handler request auth st of
                  (Inl e, st') \<Rightarrow>
                    (Inr (api_error (Text ''Internal server error'') ''INTERNAL_ERROR'' 500),
                     writes @ [w], st')
                | (Inr response, st') \<Rightarrow>
                    (case checkQuota env sb' (t_quota_after clock) (auth_userId auth)
                            (auth_tier auth) of
                       Inl e \<Rightarrow>
                         (Inr (api_error (Text ''Internal server error'')
                                 ''INTERNAL_ERROR'' 500),
                          writes @ [w], st')
                     | Inr quota \<Rightarrow>
                         (Inr (headers_set ''X-RateLimit-Remaining''
                                 (number_toString (remaining quota)) response),
                          writes @ [w], st')))))"

section \<open>The routes\<close>

definition POST_store where
  "POST_store uuid now = withAuth (store_handler getMemoryService uuid now)"

definition POST_recall where
  "POST_recall env = withAuth (recall_handler getMemoryService env)"

definition POST_consolidate where
  "POST_consolidate = withAuth (consolidate_handler getMemoryService)"

section \<open>Executions of the service\<close>

text \<open>\<open>SELECT * FROM memories WHERE id = ?\<close>, first row.\<close>

definition lookup_row :: "string \<Rightarrow> db \<Rightarrow> MemoryRow option" where
  "lookup_row i d = find (\<lambda>r. row_id r = i) (memories d)"

text \<open>
  The databases a user's file can hold: it is created empty, and only \<open>store\<close>,
  \<open>recall\<close> and \<open>consolidate\<close> write it.  A call that throws changes nothing.
\<close>

inductive reachable :: "db \<Rightarrow> bool" where
  init: "reachable empty_db"
| store: "reachable d \<Longrightarrow> store uuid now content type importance metadata d = Inr (resp, d')
            \<Longrightarrow> reachable d'"
| recall: "reachable d \<Longrightarrow> recall env query limit types d = Inr (resp, d') \<Longrightarrow> reachable d'"
| consolidate: "reachable d \<Longrightarrow> reachable (snd (consolidate d))"

text \<open>A sequence of \<open>recall\<close> and \<open>consolidate\<close> calls, each on its own handle.\<close>

datatype call =
    Recall recall_env string real "string list option"
  | Consolidate

fun run_call :: "call \<Rightarrow> db \<Rightarrow> db" where
  "run_call (Recall env query limit types) d =
     (case recall env query limit types d of Inl e \<Rightarrow> d | Inr (resp, d') \<Rightarrow> d')"
| "run_call Consolidate d = snd (consolidate d)"

definition run :: "call list \<Rightarrow> db \<Rightarrow> db" where
  "run calls d = foldl (\<lambda>d c. run_call c d) d calls"

section \<open>Notions used in the proofs\<close>

text \<open>What \<open>updateStmt\<close> does to one row.\<close>

definition boost :: "string \<Rightarrow> MemoryRow \<Rightarrow> MemoryRow" where
  "boost now r = r\<lparr>row_last_accessed := Some now, row_activation := min (row_activation r * 1.1) 1.0\<rparr>"

text \<open>The database after \<open>updateStmt\<close> ran once for each of the rows.\<close>

definition boosted :: "string \<Rightarrow> MemoryRow list \<Rightarrow> db \<Rightarrow> db" where
  "boosted now rows d =
     d\<lparr>memories := map (\<lambda>r. if row_id r \<in> row_id ` set rows then boost now r else r) (memories d)\<rparr>"

text \<open>What the first statement of \<open>consolidate\<close> does to one row.\<close>

definition decay :: "MemoryRow \<Rightarrow> MemoryRow" where
  "decay r = (if row_activation r > 0.01 then r\<lparr>row_activation := row_activation r * 0.95\<rparr> else r)"

text \<open>The row \<open>store\<close> inserts.\<close>

definition new_row ::
  "string \<Rightarrow> string \<Rightarrow> string \<Rightarrow> string arg \<Rightarrow> real option \<Rightarrow> json option \<Rightarrow> db \<Rightarrow> MemoryRow" where
  "new_row uuid now content type importance metadata d =
     \<lparr>rowid = next_rowid (memories d), row_id = uuid, row_content = content,
      row_type = (case type of Undefined \<Rightarrow> Some ''factual'' | Null \<Rightarrow> None
                   | Value t \<Rightarrow> Some t | NotBindable \<Rightarrow> None),
      row_importance = (case importance of None \<Rightarrow> 0.5 | Some i \<Rightarrow> i), row_activation = 1.0,
      row_created_at = now, row_last_accessed = None,
      row_metadata = (case metadata of None \<Rightarrow> None
                       | Some j \<Rightarrow> if truthy j then Some j else None)\<rparr>"

text \<open>
  The invariant of a database file: identifiers are unique (the primary key), the index has
  one entry for a rowid, every index entry belongs to a row, and every activation lies in
  \<open>(0, 1]\<close>.
\<close>

definition db_inv :: "db \<Rightarrow> bool" where
  "db_inv d =
     (distinct (map row_id (memories d)) \<and> distinct (map fst (memories_fts d))
      \<and> set (memories_fts d) \<subseteq> (\<lambda>r. (rowid r, row_content r)) ` set (memories d)
      \<and> (\<forall>r\<in>set (memories d). 0 < row_activation r \<and> row_activation r \<le> 1))"

text \<open>The columns that only \<open>store\<close> writes agree on two rows.\<close>

definition unchanged_fields :: "MemoryRow \<Rightarrow> MemoryRow \<Rightarrow> bool" where
  "unchanged_fields r0 r =
     (row_id r = row_id r0 \<and> row_importance r = row_importance r0
      \<and> row_content r = row_content r0 \<and> row_type r = row_type r0
      \<and> row_metadata r = row_metadata r0 \<and> row_created_at r = row_created_at r0)"

section \<open>Example states\<close>

text \<open>
  Four rows: one fully active, one that decays below the threshold in the pass, one exactly
  at the threshold and one below it.
\<close>

definition ex_d0 :: db where
  "ex_d0 = \<lparr>memories =
      [\<lparr>rowid = 1, row_id = ''a'', row_content = ''alpha'', row_type = Some ''factual'',
        row_importance = 0.5, row_activation = 1, row_created_at = ''t0'',
        row_last_accessed = None, row_metadata = None\<rparr>,
       \<lparr>rowid = 2, row_id = ''b'', row_content = ''beta'', row_type = Some ''episodic'',
        row_importance = 0.8, row_activation = 0.0104, row_created_at = ''t1'',
        row_last_accessed = None, row_metadata = None\<rparr>,
       \<lparr>rowid = 3, row_id = ''c'', row_content = ''gamma'', row_type = None,
        row_importance = 0.1, row_activation = 0.01, row_created_at = ''t2'',
        row_last_accessed = Some ''t3'', row_metadata = None\<rparr>,
       \<lparr>rowid = 4, row_id = ''d'', row_content = ''delta'', row_type = Some ''semantic'',
        row_importance = 0.3, row_activation = 0.005, row_created_at = ''t4'',
        row_last_accessed = None, row_metadata = None\<rparr>],
     memories_fts = [(1, ''alpha''), (2, ''beta''), (3, ''gamma''), (4, ''delta'')]\<rparr>"

text \<open>
  A stand-in for the FTS5 engine that accepts every query and matches the rows containing it,
  and the states after a \<open>store\<close> into an empty file, a \<open>consolidate\<close> and a \<open>recall\<close>.
\<close>

definition ex_env :: recall_env where
  "ex_env = \<lparr>fts5 = (\<lambda>q. Some (\<lambda>c. like (''%'' @ q @ ''%'') c)), startTime = 1000,
             nowISO = ''2026-01-02T00:00:00.000Z'', endTime = 1004\<rparr>"

definition ex_d1 :: db where
  "ex_d1 = \<lparr>memories =
      [\<lparr>rowid = 1, row_id = ''id-1'', row_content = ''User prefers Python'',
        row_type = Some ''relational'', row_importance = 0.8, row_activation = 1,
        row_created_at = ''2026-01-01T00:00:00.000Z'', row_last_accessed = None,
        row_metadata = None\<rparr>],
     memories_fts = [(1, ''User prefers Python'')]\<rparr>"

definition ex_d2 :: db where
  "ex_d2 = \<lparr>memories =
      [\<lparr>rowid = 1, row_id = ''id-1'', row_content = ''User prefers Python'',
        row_type = Some ''relational'', row_importance = 0.8, row_activation = 0.95,
        row_created_at = ''2026-01-01T00:00:00.000Z'', row_last_accessed = None,
        row_metadata = None\<rparr>],
     memories_fts = [(1, ''User prefers Python'')]\<rparr>"

definition ex_d3 :: db where
  "ex_d3 = \<lparr>memories =
      [\<lparr>rowid = 1, row_id = ''id-1'', row_content = ''User prefers Python'',
        row_type = Some ''relational'', row_importance = 0.8, row_activation = 1,
        row_created_at = ''2026-01-01T00:00:00.000Z'',
        row_last_accessed = Some ''2026-01-02T00:00:00.000Z'',
        row_metadata = None\<rparr>],
     memories_fts = [(1, ''User prefers Python'')]\<rparr>"

definition ex_m :: Memory where
  "ex_m = \<lparr>mem_id = ''id-1'', mem_content = ''User prefers Python'',
           mem_type = Some ''relational'', mem_importance = 0.8,
           mem_activation = 0.95,
           mem_created_at = ''2026-01-01T00:00:00.000Z'',
           mem_last_accessed = None, mem_metadata = None\<rparr>"

text \<open>A consolidation followed by a recall.\<close>

definition ex_calls :: "call list" where
  "ex_calls = [Consolidate, Recall ex_env ''Python'' 10 None]"

text \<open>
  An environment with the development key, and a managed service that knows one key of the
  free tier, whose user has ten requests in the last minute; the usage count of any other
  user fails.  The hash is a stand-in.
\<close>

definition ex_penv :: process_env where
  "ex_penv = \<lparr>SUPABASE_URL = Some ''https://example.supabase.co'',
              SUPABASE_SERVICE_KEY = Some ''service-key'',
              TEST_API_KEY = Some ''test-key-for-development'',
              RATE_LIMIT_FREE = None, RATE_LIMIT_PRO = None\<rparr>"

definition ex_sb :: supabase where
  "ex_sb = \<lparr>sha256_hex = (\<lambda>k. k),
            select_api_key = (\<lambda>h. if h = ''bcb_free''
               then Inr (Some \<lparr>key_id = ''k1'', key_user_id = ''u1'', key_tier = free\<rparr>)
               else Inl ''no rows''),
            count_usage = (\<lambda>u since. if u = ''u1'' then Inr (Some 10)
               else Inl ''timeout'')\<rparr>"

definition ex_clock :: auth_clock where
  "ex_clock = \<lparr>t_last_used = 1767312000000, t_quota = 1767312000001, t_reset = 1767312000002,
               t_log = 1767312000003, t_quota_after = 1767312000009\<rparr>"

definition ex_files :: storage where
  "ex_files = [''test-user'' \<mapsto> ex_d1]"

definition ex_test_auth :: AuthContext where
  "ex_test_auth = \<lparr>auth_userId = ''test-user'', auth_tier = pro\<rparr>"

text \<open>A store request with 10001 characters of content, under the development key.\<close>

definition ex_long_content :: string where
  "ex_long_content = replicate 10001 CHR ''a''"

definition ex_long_body :: json where
  "ex_long_body = JObj [(''content'', JStr ex_long_content), (''type'', JStr ''factual'')]"

definition ex_long_request :: NextRequest where
  "ex_long_request = \<lparr>req_authorization = Some ''Bearer test-key-for-development'',
                      req_pathname = ''/api/v1/memory/store'',
                      req_json = Some ex_long_body\<rparr>"

text \<open>A consolidate request under the key of the free tier, and one under the development key.\<close>

definition ex_free_request :: NextRequest where
  "ex_free_request = \<lparr>req_authorization = Some ''Bearer bcb_free'',
                      req_pathname = ''/api/v1/memory/consolidate'', req_json = None\<rparr>"

definition ex_test_request :: NextRequest where
  "ex_test_request = \<lparr>req_authorization = Some ''Bearer test-key-for-development'',
                      req_pathname = ''/api/v1/memory/consolidate'', req_json = None\<rparr>"

text \<open>
  A recall request with a limit and two types, and the object it returns from the file of
  the development user.
\<close>

definition ex_recall_body :: json where
  "ex_recall_body = JObj [(''query'', JStr ''Python''), (''limit'', JNum 2),
                          (''types'', JArr [JStr ''relational'', JStr ''factual''])]"

definition ex_recall_request :: NextRequest where
  "ex_recall_request = \<lparr>req_authorization = Some ''Bearer test-key-for-development'',
                        req_pathname = ''/api/v1/memory/recall'',
                        req_json = Some ex_recall_body\<rparr>"

definition ex_m1 :: Memory where
  "ex_m1 = \<lparr>mem_id = ''id-1'', mem_content = ''User prefers Python'',
           mem_type = Some ''relational'', mem_importance = 0.8,
           mem_activation = 1,
           mem_created_at = ''2026-01-01T00:00:00.000Z'',
           mem_last_accessed = None, mem_metadata = None\<rparr>"

section \<open>Facts about the SQL statements\<close>

lemma filter_key_le1:
  "distinct (map fst xs) \<Longrightarrow> length (filter (\<lambda>e. k = fst e \<and> P e) xs) \<le> 1"
proof (induction xs)
  case Nil
  then show ?case by simp
next
  case (Cons a xs)
  show ?case
  proof (cases "k = fst a")
    case True
    with Cons.prems have "fst a \<notin> fst ` set xs" by simp
    with True have "\<forall>e\<in>set xs. k \<noteq> fst e" by auto
    then have "filter (\<lambda>e. k = fst e \<and> P e) xs = []" by (simp add: filter_empty_conv)
    with True show ?thesis by auto
  next
    case False
    with Cons show ?thesis by simp
  qed
qed

lemma replicate_le1:
  "length ys \<le> 1 \<Longrightarrow> map (\<lambda>e. m) ys = (if ys = [] then [] else [m])"
  by (cases ys) auto

lemma concat_map_if: "concat (map (\<lambda>m. if Q m then [m] else []) ms) = filter Q ms"
  by (induction ms) auto

lemma fts_join_filter:
  assumes "distinct (map fst (memories_fts d))"
  shows "fts_join matches d =
           filter (\<lambda>m. \<exists>e\<in>set (memories_fts d). rowid m = fst e \<and> matches (snd e)) (memories d)"
proof -
  have h: "map (\<lambda>e. m) (filter (\<lambda>e. rowid m = fst e \<and> matches (snd e)) (memories_fts d))
        = (if \<exists>e\<in>set (memories_fts d). rowid m = fst e \<and> matches (snd e) then [m] else [])" for m
    using filter_key_le1[OF assms, of "rowid m" "\<lambda>e. matches (snd e)"]
    by (simp add: replicate_le1 filter_empty_conv)
  have "fts_join matches d =
      concat (map (\<lambda>m. if \<exists>e\<in>set (memories_fts d). rowid m = fst e \<and> matches (snd e)
                          then [m] else []) (memories d))"
    unfolding fts_join_def by (simp only: h)
  then show ?thesis
    by (simp only: concat_map_if)
qed

lemma set_fts_join: "set (fts_join matches d) \<subseteq> set (memories d)"
  by (auto simp: fts_join_def)

lemma sql_limit_Inr:
  "sql_limit l t = Inr rows \<Longrightarrow> rows = t \<or> rows = take (nat \<lfloor>l\<rfloor>) t"
  by (auto simp: sql_limit_def split: if_splits)

lemma sql_limit_subset:
  "sql_limit l t = Inr rows \<Longrightarrow> set rows \<subseteq> set t"
  using set_take_subset[of "nat \<lfloor>l\<rfloor>" t]
  by (auto simp: sql_limit_def split: if_splits)

lemma sql_limit_length:
  "sql_limit l t = Inr rows \<Longrightarrow> 0 \<le> l \<Longrightarrow> real (length rows) \<le> l"
  by (auto simp: sql_limit_def split: if_splits)

lemma distinct_map_sort_key:
  "distinct (map g (sort_key f xs)) = distinct (map g xs)"
  by (simp add: distinct_map)

text \<open>The rows selected, before the limit.\<close>

lemma select_rows_cases:
  assumes "select_rows env query limit types d = Inr rows"
  shows "\<exists>cand. sql_limit limit (order_by_activation_desc (filter (type_filter types) cand)) = Inr rows
           \<and> set cand \<subseteq> set (memories d)
           \<and> (distinct (map row_id (memories d)) \<longrightarrow> distinct (map fst (memories_fts d))
                \<longrightarrow> distinct (map row_id cand))"
proof (cases "length (memories_fts d) > 0")
  case True
  with assms obtain matches where m: "fts5 env query = Some matches"
    and l: "sql_limit limit (order_by_activation_desc (filter (type_filter types) (fts_join matches d))) = Inr rows"
    by (auto simp: select_rows_def Let_def split: option.splits)
  have "distinct (map row_id (memories d)) \<longrightarrow> distinct (map fst (memories_fts d))
          \<longrightarrow> distinct (map row_id (fts_join matches d))"
    by (simp add: fts_join_filter distinct_map_filter)
  with l set_fts_join show ?thesis by blast
next
  case False
  with assms have l: "sql_limit limit (order_by_activation_desc (filter (type_filter types)
      (filter (\<lambda>r. like (''%'' @ query @ ''%'') (row_content r)) (memories d)))) = Inr rows"
    by (auto simp: select_rows_def Let_def)
  have "set (filter (\<lambda>r. like (''%'' @ query @ ''%'') (row_content r)) (memories d)) \<subseteq> set (memories d)"
    by auto
  moreover have "distinct (map row_id (memories d)) \<longrightarrow>
      distinct (map row_id (filter (\<lambda>r. like (''%'' @ query @ ''%'') (row_content r)) (memories d)))"
    by (simp add: distinct_map_filter)
  ultimately show ?thesis using l by blast
qed

lemma select_rows_subset:
  assumes "select_rows env query limit types d = Inr rows"
  shows "set rows \<subseteq> set (memories d)"
proof -
  from assms obtain cand where
    l: "sql_limit limit (order_by_activation_desc (filter (type_filter types) cand)) = Inr rows"
    and s: "set cand \<subseteq> set (memories d)"
    using select_rows_cases by blast
  from sql_limit_subset[OF l] s show ?thesis
    by (auto simp: order_by_activation_desc_def)
qed

lemma select_rows_distinct:
  assumes "select_rows env query limit types d = Inr rows"
    and "distinct (map row_id (memories d))" and "distinct (map fst (memories_fts d))"
  shows "distinct (map row_id rows)"
proof -
  from assms(1) obtain cand where
    l: "sql_limit limit (order_by_activation_desc (filter (type_filter types) cand)) = Inr rows"
    and dc: "distinct (map row_id (memories d)) \<longrightarrow> distinct (map fst (memories_fts d)) \<longrightarrow> distinct (map row_id cand)"
    using select_rows_cases by blast
  from dc assms have "distinct (map row_id cand)" by simp
  then have "distinct (map row_id (order_by_activation_desc (filter (type_filter types) cand)))"
    by (simp add: order_by_activation_desc_def distinct_map_sort_key distinct_map_filter)
  with sql_limit_Inr[OF l] show ?thesis
    by (auto simp: take_map[symmetric] distinct_take)
qed

lemma select_rows_length:
  assumes "select_rows env query limit types d = Inr rows" and "0 \<le> limit"
  shows "real (length rows) \<le> limit"
proof -
  from assms(1) obtain cand where
    l: "sql_limit limit (order_by_activation_desc (filter (type_filter types) cand)) = Inr rows"
    using select_rows_cases by blast
  from sql_limit_length[OF l assms(2)] show ?thesis .
qed

lemma select_rows_types:
  assumes "select_rows env query limit types d = Inr rows" and "r \<in> set rows"
  shows "type_filter types r"
proof -
  from assms(1) obtain cand where
    l: "sql_limit limit (order_by_activation_desc (filter (type_filter types) cand)) = Inr rows"
    using select_rows_cases by blast
  from sql_limit_subset[OF l] assms(2) show ?thesis
    by (auto simp: order_by_activation_desc_def)
qed

section \<open>The state after \<open>recall\<close> and \<open>store\<close>\<close>

lemma updateStmt_fold:
  "distinct ids \<Longrightarrow>
   foldl (\<lambda>d i. updateStmt now i d) d ids =
     d\<lparr>memories := map (\<lambda>r. if row_id r \<in> set ids then boost now r else r) (memories d)\<rparr>"
proof (induction ids arbitrary: d)
  case Nil
  then show ?case by simp
next
  case (Cons i ids)
  have "map (\<lambda>r. if row_id r \<in> set ids then boost now r else r)
          (sql_update (\<lambda>r. row_id r = i) (boost now) (memories d))
        = map (\<lambda>r. if row_id r \<in> set (i # ids) then boost now r else r) (memories d)"
    using Cons.prems by (auto simp: sql_update_def boost_def)
  moreover have "updateStmt now i d = d\<lparr>memories := sql_update (\<lambda>r. row_id r = i) (boost now) (memories d)\<rparr>"
    by (simp add: updateStmt_def boost_def[abs_def])
  ultimately show ?case using Cons by simp
qed

lemma foldl_rows_ids:
  "foldl (\<lambda>d row. updateStmt now (row_id row) d) d rows
     = foldl (\<lambda>d i. updateStmt now i d) d (map row_id rows)"
  by (induction rows arbitrary: d) auto

lemma recall_Inr:
  assumes "recall env query limit types d = Inr (resp, d')"
  obtains rows where "select_rows env query limit types d = Inr rows"
    and "results resp = map to_memory rows"
    and "d' = foldl (\<lambda>d row. updateStmt (nowISO env) (row_id row) d) d rows"
  using assms by (auto simp: recall_def Let_def split: sum.splits)

lemma recall_state:
  assumes "recall env query limit types d = Inr (resp, d')"
    and "distinct (map row_id (memories d))" and "distinct (map fst (memories_fts d))"
  shows "\<exists>rows. select_rows env query limit types d = Inr rows
    \<and> results resp = map to_memory rows
    \<and> distinct (map row_id rows)
    \<and> d' = boosted (nowISO env) rows d"
proof -
  from assms(1) obtain rows where s: "select_rows env query limit types d = Inr rows"
    and r: "results resp = map to_memory rows"
    and d': "d' = foldl (\<lambda>d row. updateStmt (nowISO env) (row_id row) d) d rows"
    by (rule recall_Inr)
  from select_rows_distinct[OF s assms(2,3)] have dist: "distinct (map row_id rows)" .
  from d' have "d' = boosted (nowISO env) rows d"
    by (simp add: foldl_rows_ids updateStmt_fold[OF dist] boosted_def)
  with s r dist show ?thesis by blast
qed

lemma find_append_new:
  "i \<notin> row_id ` set ms \<Longrightarrow> row_id new = i \<Longrightarrow> find (\<lambda>r. row_id r = i) (ms @ [new]) = Some new"
  by (induction ms) auto

lemma store_eq:
  "store uuid now content type importance metadata d =
     (if type = NotBindable then Inl TypeError
      else if uuid \<in> row_id ` set (memories d) then Inl SqliteConstraint
      else Inr (\<lparr>store_id = uuid, store_success = True\<rparr>,
                \<lparr>memories = memories d @ [new_row uuid now content type importance metadata d],
                 memories_fts = memories_fts d @ [(next_rowid (memories d), content)]\<rparr>))"
  by (simp add: store_def Let_def new_row_def find_append_new fts_insert_or_ignore_def
        memories_ai_def)

lemma store_Inr:
  assumes "store uuid now content type importance metadata d = Inr (resp, d')"
  shows "uuid \<notin> row_id ` set (memories d)"
    and "memories d' = memories d @ [new_row uuid now content type importance metadata d]"
    and "memories_fts d' = memories_fts d @ [(next_rowid (memories d), content)]"
    and "resp = \<lparr>store_id = uuid, store_success = True\<rparr>"
  using assms by (auto simp: store_eq split: if_splits)

lemma fold_max_ge: "x \<in> set xs \<Longrightarrow> x \<le> fold max xs (a::nat)"
proof (induction xs arbitrary: a)
  case Nil
  then show ?case by simp
next
  case (Cons y ys)
  have mono: "b \<le> fold max ys b" for b :: nat
    by (induction ys arbitrary: b) (auto intro: order_trans[OF max.cobounded2])
  from Cons show ?case
    using mono[of "max y a"] by auto
qed

lemma next_rowid_fresh: "r \<in> set ms \<Longrightarrow> rowid r < next_rowid ms"
  using fold_max_ge[of "rowid r" "map rowid ms" 0] by (simp add: next_rowid_def)

section \<open>The state after \<open>consolidate\<close>, and the invariant\<close>

lemma consolidate_state:
  "snd (consolidate d) =
     \<lparr>memories = filter (\<lambda>r. \<not> row_activation r < 0.01) (map decay (memories d)),
      memories_fts = memories_ad (filter (\<lambda>r. row_activation r < 0.01) (map decay (memories d)))
                       (memories_fts d)\<rparr>"
  unfolding consolidate_def Let_def sql_delete_def sql_update_def decay_def[abs_def]
  by simp

lemma decay_frame [simp]:
  "row_id (decay r) = row_id r" "rowid (decay r) = rowid r" "row_content (decay r) = row_content r"
  "row_type (decay r) = row_type r" "row_importance (decay r) = row_importance r"
  "row_created_at (decay r) = row_created_at r" "row_metadata (decay r) = row_metadata r"
  "row_last_accessed (decay r) = row_last_accessed r"
  by (simp_all add: decay_def)

lemma boost_frame [simp]:
  "row_id (boost now r) = row_id r" "rowid (boost now r) = rowid r"
  "row_content (boost now r) = row_content r"
  "row_type (boost now r) = row_type r" "row_importance (boost now r) = row_importance r"
  "row_created_at (boost now r) = row_created_at r" "row_metadata (boost now r) = row_metadata r"
  "row_last_accessed (boost now r) = Some now"
  "row_activation (boost now r) = min (row_activation r * 1.1) 1"
  by (simp_all add: boost_def)

lemma inv_empty: "db_inv empty_db"
  by (simp add: db_inv_def empty_db_def)

lemma inv_store:
  assumes "db_inv d" and "store uuid now content type importance metadata d = Inr (resp, d')"
  shows "db_inv d'"
proof -
  note s = store_Inr[OF assms(2)]
  let ?new = "new_row uuid now content type importance metadata d"
  have fresh: "next_rowid (memories d) \<notin> fst ` set (memories_fts d)"
  proof
    assume "next_rowid (memories d) \<in> fst ` set (memories_fts d)"
    then obtain e where e: "e \<in> set (memories_fts d)" "fst e = next_rowid (memories d)" by auto
    with assms(1) obtain r where "r \<in> set (memories d)" "e = (rowid r, row_content r)"
      by (auto simp: db_inv_def)
    with e next_rowid_fresh[of r "memories d"] show False by simp
  qed
  have "distinct (map row_id (memories d'))"
    using assms(1) s(1) by (simp add: s(2) db_inv_def new_row_def)
  moreover have "distinct (map fst (memories_fts d'))"
    using assms(1) fresh by (simp add: s(3) db_inv_def)
  moreover have "set (memories_fts d') \<subseteq> (\<lambda>r. (rowid r, row_content r)) ` set (memories d')"
    using assms(1) by (auto simp: s(2) s(3) db_inv_def new_row_def)
  moreover have "\<forall>r\<in>set (memories d'). 0 < row_activation r \<and> row_activation r \<le> 1"
    using assms(1) by (auto simp: s(2) db_inv_def new_row_def)
  ultimately show ?thesis by (simp add: db_inv_def)
qed

lemma inv_recall:
  assumes "db_inv d" and "recall env query limit types d = Inr (resp, d')"
  shows "db_inv d'"
proof -
  from assms(1) have d1: "distinct (map row_id (memories d))" and d2: "distinct (map fst (memories_fts d))"
    by (simp_all add: db_inv_def)
  from recall_state[OF assms(2) d1 d2] obtain rows where
    "d' = boosted (nowISO env) rows d"
    by blast
  then have d': "d' = d\<lparr>memories := map (\<lambda>r. if row_id r \<in> row_id ` set rows then boost (nowISO env) r else r)
                               (memories d)\<rparr>"
    by (simp add: boosted_def)
  let ?g = "\<lambda>r. if row_id r \<in> row_id ` set rows then boost (nowISO env) r else r"
  have id: "row_id (?g r) = row_id r" and rc: "(rowid (?g r), row_content (?g r)) = (rowid r, row_content r)" for r
    by simp_all
  have "map row_id (memories d') = map row_id (memories d)"
    unfolding d' by (simp add: comp_def)
  moreover have "map (\<lambda>r. (rowid r, row_content r)) (memories d')
      = map (\<lambda>r. (rowid r, row_content r)) (memories d)"
    unfolding d' by (simp add: comp_def)
  then have "(\<lambda>r. (rowid r, row_content r)) ` set (memories d')
      = (\<lambda>r. (rowid r, row_content r)) ` set (memories d)"
    by (metis set_map)
  moreover have "\<forall>r\<in>set (memories d'). 0 < row_activation r \<and> row_activation r \<le> 1"
    using assms(1) unfolding d' by (auto simp: db_inv_def)
  moreover have "memories_fts d' = memories_fts d" unfolding d' by simp
  ultimately show ?thesis using assms(1) by (simp add: db_inv_def)
qed

lemma inv_consolidate:
  assumes "db_inv d"
  shows "db_inv (snd (consolidate d))"
proof -
  let ?d = "snd (consolidate d)"
  have m: "memories ?d = filter (\<lambda>r. \<not> row_activation r < 0.01) (map decay (memories d))"
    and f: "memories_fts ?d = memories_ad (filter (\<lambda>r. row_activation r < 0.01) (map decay (memories d)))
                       (memories_fts d)"
    by (simp_all add: consolidate_state)
  have "map row_id (map decay (memories d)) = map row_id (memories d)" by (simp add: comp_def)
  with assms have "distinct (map row_id (memories ?d))"
    unfolding m by (metis db_inv_def distinct_map_filter)
  moreover have "distinct (map fst (memories_fts ?d))"
    using assms unfolding f memories_ad_def by (simp add: db_inv_def distinct_map_filter)
  moreover have "set (memories_fts ?d) \<subseteq> (\<lambda>r. (rowid r, row_content r)) ` set (memories ?d)"
  proof
    fix e assume e: "e \<in> set (memories_fts ?d)"
    then have e1: "e \<in> set (memories_fts d)"
      and e2: "e \<notin> (\<lambda>old. (rowid old, row_content old)) `
                  set (filter (\<lambda>r. row_activation r < 0.01) (map decay (memories d)))"
      unfolding f memories_ad_def by auto
    from e1 assms obtain r where r: "r \<in> set (memories d)" "e = (rowid r, row_content r)"
      by (auto simp: db_inv_def)
    then have e3: "e = (rowid (decay r), row_content (decay r))" by simp
    have "\<not> row_activation (decay r) < 0.01"
    proof
      assume "row_activation (decay r) < 0.01"
      with r(1) have "decay r \<in> set (filter (\<lambda>r. row_activation r < 0.01) (map decay (memories d)))"
        by simp
      with e3 e2 show False by blast
    qed
    with r(1) have "decay r \<in> set (memories ?d)" unfolding m by simp
    with e3 show "e \<in> (\<lambda>r. (rowid r, row_content r)) ` set (memories ?d)"
      by (rule image_eqI)
  qed
  moreover have "\<forall>r\<in>set (memories ?d). 0 < row_activation r \<and> row_activation r \<le> 1"
    using assms unfolding m by (auto simp: db_inv_def decay_def)
  ultimately show ?thesis by (simp add: db_inv_def)
qed

lemma reachable_inv: "reachable d \<Longrightarrow> db_inv d"
  by (induction rule: reachable.induct) (auto intro: inv_empty inv_store inv_recall inv_consolidate)

section \<open>Recall: boost of the stored rows, values returned\<close>

lemma find_map_frame:
  "(\<And>r. row_id (g r) = row_id r) \<Longrightarrow>
   find (\<lambda>r. row_id r = i) (map g ms) = map_option g (find (\<lambda>r. row_id r = i) ms)"
  by (induction ms) auto

lemma find_distinct:
  "distinct (map row_id ms) \<Longrightarrow> r \<in> set ms \<Longrightarrow> find (\<lambda>x. row_id x = row_id r) ms = Some r"
  by (induction ms) (auto simp: image_iff)

lemma to_memory_simps [simp]:
  "mem_id (to_memory r) = row_id r" "mem_activation (to_memory r) = row_activation r"
  "mem_type (to_memory r) = row_type r"
  by (simp_all add: to_memory_def)

lemma recall_row:
  assumes "reachable d" and "recall env query limit types d = Inr (resp, d')"
    and "m \<in> set (results resp)"
  shows "\<exists>r. r \<in> set (memories d) \<and> m = to_memory r
           \<and> lookup_row (mem_id m) d = Some r
           \<and> lookup_row (mem_id m) d' = Some (boost (nowISO env) r)
           \<and> 0 < row_activation r \<and> row_activation r \<le> 1"
proof -
  from reachable_inv[OF assms(1)] have inv: "db_inv d" .
  then have d1: "distinct (map row_id (memories d))" and d2: "distinct (map fst (memories_fts d))"
    by (simp_all add: db_inv_def)
  from recall_state[OF assms(2) d1 d2] obtain rows where
    s: "select_rows env query limit types d = Inr rows"
    and res: "results resp = map to_memory rows"
    and d': "d' = boosted (nowISO env) rows d"
    by blast
  from assms(3) res obtain r where r: "r \<in> set rows" "m = to_memory r" by auto
  with select_rows_subset[OF s] have rm: "r \<in> set (memories d)" by auto
  from find_distinct[OF d1 rm] r(2) have l1: "lookup_row (mem_id m) d = Some r"
    by (simp add: lookup_row_def)
  let ?g = "\<lambda>x. if row_id x \<in> row_id ` set rows then boost (nowISO env) x else x"
  have "find (\<lambda>x. row_id x = row_id r) (map ?g (memories d))
          = map_option ?g (find (\<lambda>x. row_id x = row_id r) (memories d))"
    by (rule find_map_frame) simp
  with find_distinct[OF d1 rm] r have l2: "lookup_row (mem_id m) d' = Some (boost (nowISO env) r)"
    by (simp add: lookup_row_def d' boosted_def)
  from inv rm have "0 < row_activation r \<and> row_activation r \<le> 1" by (simp add: db_inv_def)
  with rm r(2) l1 l2 show ?thesis by blast
qed

text \<open>
  C2.  In every database the service can produce, for every call of \<open>recall\<close> that returns
  and every object \<open>m\<close> of its result list: the row with the identifier of \<open>m\<close> has, after
  the call, \<open>last_accessed\<close> equal to the current time and the activation
  \<open>min (1.1 * a) 1\<close>, where \<open>a\<close> was its activation before the call.  The new activation
  is strictly larger than \<open>a\<close> when \<open>a < 1\<close>, it stays 1 otherwise, and it never exceeds 1.
  Since the state after the call is again a state the service can produce, the same holds
  for every repetition of the call.
\<close>

theorem recall_boosts_returned_rows:
  assumes "reachable d" and "recall env query limit types d = Inr (resp, d')"
    and "m \<in> set (results resp)"
  shows "\<exists>r r'. lookup_row (mem_id m) d = Some r \<and> lookup_row (mem_id m) d' = Some r'
           \<and> row_last_accessed r' = Some (nowISO env)
           \<and> row_activation r' = min (row_activation r * 1.1) 1.0
           \<and> (row_activation r < 1.0 \<longrightarrow> row_activation r < row_activation r')
           \<and> (\<not> row_activation r < 1.0 \<longrightarrow> row_activation r = 1.0 \<and> row_activation r' = 1.0)
           \<and> row_activation r' \<le> 1.0
           \<and> reachable d'"
proof -
  from recall_row[OF assms] obtain r where
    l1: "lookup_row (mem_id m) d = Some r"
    and l2: "lookup_row (mem_id m) d' = Some (boost (nowISO env) r)"
    and a: "0 < row_activation r" "row_activation r \<le> 1"
    by blast
  have "row_activation r < 1 \<longrightarrow> row_activation r < min (row_activation r * 1.1) 1"
    using a by auto
  moreover have "\<not> row_activation r < 1 \<longrightarrow> row_activation r = 1 \<and> min (row_activation r * 1.1) 1 = 1"
    using a by auto
  moreover have "reachable d'" using assms(1,2) by (rule reachable.recall)
  ultimately show ?thesis using l1 l2 by auto
qed

text \<open>
  C3.  The objects in the result list of \<open>recall\<close> are built from the rows as the search
  read them: the activation and \<open>last_accessed\<close> of a returned object are those of the
  stored row before the call, while the stored row after the call has the boosted
  activation and the new \<open>last_accessed\<close>.
\<close>

theorem recall_returns_values_read_before_update:
  assumes "reachable d" and "recall env query limit types d = Inr (resp, d')"
    and "m \<in> set (results resp)"
  shows "\<exists>r r'. lookup_row (mem_id m) d = Some r \<and> lookup_row (mem_id m) d' = Some r'
           \<and> m = to_memory r
           \<and> mem_activation m = row_activation r
           \<and> mem_last_accessed m =
                (case row_last_accessed r of None \<Rightarrow> None
                 | Some s \<Rightarrow> if s = [] then None else Some s)
           \<and> row_activation r' = min (row_activation r * 1.1) 1.0
           \<and> row_last_accessed r' = Some (nowISO env)"
proof -
  from recall_row[OF assms] obtain r where
    "m = to_memory r" "lookup_row (mem_id m) d = Some r"
    "lookup_row (mem_id m) d' = Some (boost (nowISO env) r)"
    by blast
  then show ?thesis by (auto simp: to_memory_def)
qed

text \<open>
  C5.  In every state reachable from an empty file by \<open>store\<close>, \<open>recall\<close> and
  \<open>consolidate\<close>, the activation of every row lies in the interval from 0 to 1.
\<close>

theorem activation_in_unit_interval:
  assumes "reachable d"
  shows "\<forall>r\<in>set (memories d). 0 \<le> row_activation r \<and> row_activation r \<le> 1"
  using reachable_inv[OF assms] by (auto simp: db_inv_def intro: less_imp_le)

section \<open>Recall: limit and type filter\<close>

lemma recall_limit:
  assumes "recall env query limit types d = Inr (resp, d')" and "0 \<le> limit"
  shows "real (length (results resp)) \<le> limit"
proof -
  from assms(1) obtain rows where s: "select_rows env query limit types d = Inr rows"
    and r: "results resp = map to_memory rows"
    by (rule recall_Inr)
  from select_rows_length[OF s assms(2)] r show ?thesis by simp
qed

lemma recall_types:
  assumes "recall env query limit types d = Inr (resp, d')" and "types = Some ts" and "ts \<noteq> []"
    and "m \<in> set (results resp)"
  shows "\<exists>t\<in>set ts. mem_type m = Some t"
proof -
  from assms(1) obtain rows where s: "select_rows env query limit types d = Inr rows"
    and r: "results resp = map to_memory rows"
    by (rule recall_Inr)
  from assms(4) r obtain row where row: "row \<in> set rows" "m = to_memory row" by auto
  from select_rows_types[OF s row(1)] assms(2,3) row(2) show ?thesis
    by (auto simp: type_filter_def split: option.splits)
qed

lemma recall_handler_success:
  assumes "recall_handler service env request auth st = (Inr response, st')"
    and "resp_json response = RecallJson resp"
  shows "\<exists>body query limit.
           req_json request = Some body
         \<and> field body ''query'' = Some (JStr query)
         \<and> limit_or_default (field body ''limit'') = JNum limit \<and> 1 \<le> limit \<and> limit \<le> 100
         \<and> (\<forall>ts. field body ''types'' = Some (JArr ts) \<longrightarrow> (\<forall>t\<in>set ts. valid_type t))
         \<and> svc_recall (service (auth_userId auth)) env query limit
              (types_arg (field body ''types'')) st = (Inr resp, st')"
  using assms
  by (auto simp: recall_handler_def api_error_def json_response_def Let_def find_None_iff
      split: option.splits json.splits if_splits prod.splits sum.splits)


lemma with_db_Inr:
  "with_db userId f st = (Inr a, st') \<Longrightarrow> \<exists>d'. f (getDb userId st) = Inr (a, d') \<and> st' = st(userId \<mapsto> d')"
  by (auto simp: with_db_def Let_def split: sum.splits)

lemma types_arg_valid:
  assumes "\<forall>t\<in>set ts. valid_type t"
  shows "types_arg (Some (JArr ts)) = Some us \<Longrightarrow> JStr ` set us = set ts"
proof -
  have "\<exists>s. t = JStr s" if "valid_type t" for t
    using that by (cases t) (simp_all add: valid_type_def)
  with assms have "\<forall>t\<in>set ts. \<exists>s. t = JStr s" by blast
  then have "JStr ` set (concat (map (\<lambda>j. case j of JStr s \<Rightarrow> [s] | _ \<Rightarrow> []) ts)) = set ts"
    by (induction ts) auto
  then show "types_arg (Some (JArr ts)) = Some us \<Longrightarrow> JStr ` set us = set ts"
    by (auto simp: types_arg_def)
qed

text \<open>
  C6.  A call of \<open>recall\<close> with a limit that is not negative returns at most \<open>limit\<close>
  objects, and when a non-empty list of types is given, the type of every returned object is
  in the list; the database is arbitrary, so this covers the full-text path and the substring
  path.  The recall route passes only a limit between 1 and 100 and only valid types, so
  every response of the route that carries results has at most \<open>limit\<close> of them (10 when the
  body gives none) and, when the body gives a non-empty array of types, only results of
  these types.
\<close>

theorem recall_respects_limit_and_types:
  "(recall env query limit types d = Inr (resp, d') \<and> 0 \<le> limit \<longrightarrow>
      real (length (results resp)) \<le> limit
      \<and> (\<forall>ts. types = Some ts \<and> ts \<noteq> [] \<longrightarrow>
             (\<forall>m\<in>set (results resp). \<exists>t\<in>set ts. mem_type m = Some t)))
   \<and> (recall_handler getMemoryService env' request auth st = (Inr response, st')
        \<and> resp_json response = RecallJson resp' \<longrightarrow>
      (\<exists>body limit'. req_json request = Some body
          \<and> limit_or_default (field body ''limit'') = JNum limit'
          \<and> 1 \<le> limit' \<and> limit' \<le> 100
          \<and> real (length (results resp')) \<le> limit'
          \<and> (\<forall>ts. field body ''types'' = Some (JArr ts) \<and> ts \<noteq> [] \<longrightarrow>
                 (\<forall>m\<in>set (results resp'). \<exists>t. mem_type m = Some t \<and> JStr t \<in> set ts))))"
proof (intro conjI impI)
  assume a: "recall env query limit types d = Inr (resp, d') \<and> 0 \<le> limit"
  then show "real (length (results resp)) \<le> limit" by (auto intro: recall_limit)
  from a show "\<forall>ts. types = Some ts \<and> ts \<noteq> [] \<longrightarrow>
             (\<forall>m\<in>set (results resp). \<exists>t\<in>set ts. mem_type m = Some t)"
    by (auto dest: recall_types)
next
  assume a: "recall_handler getMemoryService env' request auth st = (Inr response, st')
        \<and> resp_json response = RecallJson resp'"
  then obtain body query' limit' where
    b: "req_json request = Some body"
    and l: "limit_or_default (field body ''limit'') = JNum limit'" "1 \<le> limit'" "limit' \<le> 100"
    and v: "\<forall>ts. field body ''types'' = Some (JArr ts) \<longrightarrow> (\<forall>t\<in>set ts. valid_type t)"
    and s: "svc_recall (getMemoryService (auth_userId auth)) env' query' limit'
              (types_arg (field body ''types'')) st = (Inr resp', st')"
    using recall_handler_success[of getMemoryService env' request auth st response st' resp'] by blast
  from s obtain d2 where
    r: "recall env' query' limit' (types_arg (field body ''types'')) (getDb (auth_userId auth) st)
          = Inr (resp', d2)"
    by (auto simp: getMemoryService_def dest: with_db_Inr)
  from l have len: "real (length (results resp')) \<le> limit'" by (intro recall_limit[OF r]) simp
  have ty: "\<forall>ts. field body ''types'' = Some (JArr ts) \<and> ts \<noteq> [] \<longrightarrow>
                 (\<forall>m\<in>set (results resp'). \<exists>t. mem_type m = Some t \<and> JStr t \<in> set ts)"
  proof (intro allI impI ballI)
    fix ts m
    assume f: "field body ''types'' = Some (JArr ts) \<and> ts \<noteq> []" and m: "m \<in> set (results resp')"
    with v have val: "\<forall>t\<in>set ts. valid_type t" by blast
    obtain us where us: "types_arg (field body ''types'') = Some us"
      using f by (simp add: types_arg_def)
    with f types_arg_valid[OF val, of us] have eq: "JStr ` set us = set ts" by simp
    with f have "us \<noteq> []" by auto
    from recall_types[OF r us this m] obtain t where "t \<in> set us" "mem_type m = Some t" by blast
    with eq show "\<exists>t. mem_type m = Some t \<and> JStr t \<in> set ts" by blast
  qed
  from b l len ty
  show "\<exists>body limit'. req_json request = Some body
          \<and> limit_or_default (field body ''limit'') = JNum limit'
          \<and> 1 \<le> limit' \<and> limit' \<le> 100
          \<and> real (length (results resp')) \<le> limit'
          \<and> (\<forall>ts. field body ''types'' = Some (JArr ts) \<and> ts \<noteq> [] \<longrightarrow>
                 (\<forall>m\<in>set (results resp'). \<exists>t. mem_type m = Some t \<and> JStr t \<in> set ts))"
    by blast
qed

section \<open>Consolidate: decay, forgetting and the counts\<close>

text \<open>
  C1.  After \<open>consolidate\<close> the table holds, in their order, the rows of the table before
  where the activation of exactly the rows above 0.01 has been multiplied by 0.95 and then
  exactly the rows below 0.01 have been removed, rows decayed in the same pass included.
  Hence every row left has an activation of at least 0.01.
\<close>

theorem consolidate_decays_then_forgets:
  "memories (snd (consolidate d)) =
     filter (\<lambda>r. 0.01 \<le> row_activation r)
       (map (\<lambda>r. if 0.01 < row_activation r
                 then r\<lparr>row_activation := row_activation r * 0.95\<rparr> else r)
          (memories d))
   \<and> (\<forall>r \<in> set (memories (snd (consolidate d))). 0.01 \<le> row_activation r)"
  unfolding consolidate_state decay_def[abs_def] by (simp add: not_less)

theorem consolidate_decays_then_forgets_witness:
  "map row_id (memories (snd (consolidate ex_d0))) = [''a'', ''c'']
   \<and> map row_activation (memories (snd (consolidate ex_d0))) = [0.95, 0.01]
   \<and> list_all (\<lambda>r. 0.01 \<le> row_activation r) (memories (snd (consolidate ex_d0)))"
  using consolidate_decays_then_forgets[of ex_d0]
  by (simp add: ex_d0_def)

lemma sql_delete_length: "length (fst (sql_delete p t)) + length (snd (sql_delete p t)) = length t"
  by (simp add: sql_delete_def sum_length_filter_compl add.commute)

text \<open>
  C4.  The counts \<open>consolidate\<close> returns: \<open>memories_before\<close> and \<open>memories_after\<close> are
  the sizes of the table before and after, \<open>forgotten\<close> is the number of rows deleted, so
  that \<open>memories_after = memories_before - forgotten\<close>, and \<open>merged\<close> is 0.
\<close>

theorem consolidate_stats:
  "memories_before (stats (fst (consolidate d))) = length (memories d)
   \<and> memories_after (stats (fst (consolidate d))) = length (memories (snd (consolidate d)))
   \<and> forgotten (stats (fst (consolidate d)))
       = length (memories d) - length (memories (snd (consolidate d)))
   \<and> memories_before (stats (fst (consolidate d)))
       = memories_after (stats (fst (consolidate d))) + forgotten (stats (fst (consolidate d)))
   \<and> int (memories_after (stats (fst (consolidate d))))
       = int (memories_before (stats (fst (consolidate d))))
         - int (forgotten (stats (fst (consolidate d))))
   \<and> merged (stats (fst (consolidate d))) = 0"
  using sql_delete_length[of "\<lambda>r. row_activation r < 0.01" "sql_update (\<lambda>r. row_activation r > 0.01)
          (\<lambda>r. r\<lparr>row_activation := row_activation r * 0.95\<rparr>) (memories d)"]
  by (simp add: consolidate_def Let_def split_beta sql_update_def)

theorem consolidate_stats_witness:
  "memories_before (stats (fst (consolidate ex_d0))) = 4
   \<and> memories_after (stats (fst (consolidate ex_d0))) = 2
   \<and> forgotten (stats (fst (consolidate ex_d0))) = 2
   \<and> merged (stats (fst (consolidate ex_d0))) = 0"
  using consolidate_stats[of ex_d0]
  by (simp add: ex_d0_def consolidate_def Let_def sql_update_def sql_delete_def)

section \<open>The store route and the authentication wrapper\<close>

lemma store_handler_long_content:
  assumes "req_json request = Some body"
    and "field body ''content'' = Some (JStr content)"
    and "length content > 10000"
  shows \<open>store_handler service uuid now request auth st
           = (Inr (api_error (Text ''"content" must be less than 10000 characters'')
                     ''VALIDATION_ERROR'' 400), st)\<close>
proof -
  from assms(2) have "body \<noteq> JNull" by (auto simp: field_def)
  moreover from assms(3) have "content \<noteq> []" by auto
  ultimately show ?thesis
    using assms by (cases body) (simp_all add: store_handler_def)
qed

lemma getSupabaseAdmin_env:
  "getSupabaseAdmin env sb = Inr sb2 \<Longrightarrow> getSupabaseAdmin env sb' = Inr sb'"
  by (auto simp: getSupabaseAdmin_def split: if_splits)

lemma checkQuota_Inr:
  "checkQuota env sb now uid t = Inr q \<Longrightarrow> getSupabaseAdmin env sb = Inr sb"
  by (auto simp: checkQuota_def getSupabaseAdmin_def split: if_splits)

lemma authenticateRequest_ok:
  assumes "authenticateRequest env sb clock request = Inr (AuthOk auth, ws)"
  shows "getSupabaseAdmin env sb = Inr sb"
  using assms
  by (auto simp: authenticateRequest_def api_error_def
      split: option.splits sum.splits prod.splits bool.splits if_splits
      dest: checkQuota_Inr)

lemma checkQuota_total:
  "getSupabaseAdmin env sb = Inr sb \<Longrightarrow> \<exists>q. checkQuota env sb now uid t = Inr q"
  by (simp add: checkQuota_def Let_def split: sum.splits)

lemma headers_set_frame [simp]:
  "resp_status (headers_set k v r) = resp_status r" "resp_json (headers_set k v r) = resp_json r"
  by (simp_all add: headers_set_def)

lemma withAuth_AuthOk:
  assumes "authenticateRequest env sb clock request = Inr (AuthOk auth, ws)"
    and "handler request auth st = (Inr response, st')"
  shows "\<exists>q. checkQuota env sb' (t_quota_after clock) (auth_userId auth) (auth_tier auth) = Inr q
           \<and> withAuth handler env sb sb' clock request st =
               (Inr (headers_set ''X-RateLimit-Remaining'' (number_toString (remaining q)) response),
                ws @ [InsertUsageLog (auth_userId auth) (req_pathname request) (t_log clock)], st')"
proof -
  from authenticateRequest_ok[OF assms(1)] have g: "getSupabaseAdmin env sb = Inr sb" .
  then have g': "getSupabaseAdmin env sb' = Inr sb'" by (rule getSupabaseAdmin_env)
  from checkQuota_total[OF g'] obtain q where
    q: "checkQuota env sb' (t_quota_after clock) (auth_userId auth) (auth_tier auth) = Inr q"
    by blast
  with assms g show ?thesis
    by (simp add: withAuth_def logUsage_def)
qed

section \<open>Frame: the columns written once\<close>

lemma unchanged_fields_trans:
  "unchanged_fields a b \<Longrightarrow> unchanged_fields b c \<Longrightarrow> unchanged_fields a c"
  by (simp add: unchanged_fields_def)

lemma updateStmt_frame:
  "r \<in> set (memories (updateStmt now i d)) \<Longrightarrow> \<exists>r0\<in>set (memories d). unchanged_fields r0 r"
  by (auto simp: updateStmt_def sql_update_def unchanged_fields_def split: if_splits)

lemma foldl_updateStmt_frame:
  "r \<in> set (memories (foldl (\<lambda>d row. updateStmt now (row_id row) d) d rows))
     \<Longrightarrow> \<exists>r0\<in>set (memories d). unchanged_fields r0 r"
proof (induction rows arbitrary: d)
  case Nil
  then show ?case by (auto simp: unchanged_fields_def)
next
  case (Cons row rows)
  from Cons.IH[of "updateStmt now (row_id row) d"] Cons.prems
  obtain r1 where r1: "r1 \<in> set (memories (updateStmt now (row_id row) d))" "unchanged_fields r1 r"
    by auto
  from updateStmt_frame[OF r1(1)] obtain r0 where "r0 \<in> set (memories d)" "unchanged_fields r0 r1"
    by blast
  with r1(2) show ?case by (blast intro: unchanged_fields_trans)
qed

lemma consolidate_frame:
  "r \<in> set (memories (snd (consolidate d))) \<Longrightarrow> \<exists>r0\<in>set (memories d). unchanged_fields r0 r"
  by (auto simp: consolidate_state unchanged_fields_def)

lemma recall_frame:
  assumes "recall env query limit types d = Inr (resp, d')" and "r \<in> set (memories d')"
  shows "\<exists>r0\<in>set (memories d). unchanged_fields r0 r"
proof -
  from assms(1) obtain rows where "select_rows env query limit types d = Inr rows"
    and "results resp = map to_memory rows"
    and "d' = foldl (\<lambda>d row. updateStmt (nowISO env) (row_id row) d) d rows"
    by (rule recall_Inr)
  with assms(2) show ?thesis by (auto dest: foldl_updateStmt_frame)
qed

lemma run_call_frame:
  assumes "r \<in> set (memories (run_call c d))"
  shows "\<exists>r0\<in>set (memories d). unchanged_fields r0 r"
proof (cases c)
  case (Recall env query limit types)
  show ?thesis
  proof (cases "recall env query limit types d")
    case (Inl e)
    with Recall assms show ?thesis
      by (auto simp: unchanged_fields_def)
  next
    case (Inr p)
    obtain resp d' where p: "p = (resp, d')" by (cases p)
    with Recall Inr assms have "r \<in> set (memories d')" by simp
    from recall_frame[OF Inr[unfolded p] this] show ?thesis .
  qed
next
  case Consolidate
  with assms show ?thesis
    by (auto dest: consolidate_frame)
qed

lemma run_frame:
  "r \<in> set (memories (run calls d)) \<Longrightarrow> \<exists>r0\<in>set (memories d). unchanged_fields r0 r"
proof (induction calls arbitrary: d)
  case Nil
  then show ?case by (auto simp: run_def unchanged_fields_def)
next
  case (Cons c calls)
  from Cons.prems have "r \<in> set (memories (run calls (run_call c d)))" by (simp add: run_def)
  from Cons.IH[OF this] obtain r1 where r1: "r1 \<in> set (memories (run_call c d))" "unchanged_fields r1 r"
    by blast
  from run_call_frame[OF r1(1)] obtain r0 where "r0 \<in> set (memories d)" "unchanged_fields r0 r1"
    by blast
  with r1(2) show ?case by (blast intro: unchanged_fields_trans)
qed

text \<open>
  C8.  No sequence of \<open>recall\<close> and \<open>consolidate\<close> calls changes the importance,
  content, type, metadata or creation time of a row: every row of the table after the calls
  is a row of the table before, with these columns equal.  In particular the row that
  \<open>store\<close> creates has the values given to \<open>store\<close>, and if a row with its identifier
  is in the table after the calls, it still has them.
\<close>

theorem record_fields_fixed_at_creation:
  "(\<forall>r\<in>set (memories (run calls d)). \<exists>r0\<in>set (memories d).
       row_id r = row_id r0 \<and> row_importance r = row_importance r0
       \<and> row_content r = row_content r0 \<and> row_type r = row_type r0
       \<and> row_metadata r = row_metadata r0 \<and> row_created_at r = row_created_at r0)
   \<and> (store uuid now content type importance metadata d = Inr (resp, d1) \<longrightarrow>
        (\<exists>r0. lookup_row uuid d1 = Some r0
           \<and> row_importance r0 = (case importance of None \<Rightarrow> 0.5 | Some i \<Rightarrow> i)
           \<and> row_content r0 = content
           \<and> row_type r0 = (case type of Undefined \<Rightarrow> Some ''factual'' | Null \<Rightarrow> None
                              | Value t \<Rightarrow> Some t | NotBindable \<Rightarrow> None)
           \<and> row_metadata r0 = (case metadata of None \<Rightarrow> None
                                  | Some j \<Rightarrow> if truthy j then Some j else None)
           \<and> row_created_at r0 = now
           \<and> (\<forall>r\<in>set (memories (run calls d1)). row_id r = uuid \<longrightarrow>
                 row_importance r = row_importance r0 \<and> row_content r = row_content r0
                 \<and> row_type r = row_type r0 \<and> row_metadata r = row_metadata r0
                 \<and> row_created_at r = row_created_at r0)))"
proof (intro conjI impI)
  show "\<forall>r\<in>set (memories (run calls d)). \<exists>r0\<in>set (memories d).
       row_id r = row_id r0 \<and> row_importance r = row_importance r0
       \<and> row_content r = row_content r0 \<and> row_type r = row_type r0
       \<and> row_metadata r = row_metadata r0 \<and> row_created_at r = row_created_at r0"
    using run_frame[of _ calls d] by (simp add: unchanged_fields_def)
next
  assume s: "store uuid now content type importance metadata d = Inr (resp, d1)"
  let ?new = "new_row uuid now content type importance metadata d"
  note st = store_Inr[OF s]
  have l: "lookup_row uuid d1 = Some ?new"
    using st(1) by (simp add: lookup_row_def st(2) find_append_new new_row_def)
  have only: "r0 = ?new" if "r0 \<in> set (memories d1)" "row_id r0 = uuid" for r0
    using that st(1) by (auto simp: st(2))
  have "\<forall>r\<in>set (memories (run calls d1)). row_id r = uuid \<longrightarrow> unchanged_fields ?new r"
  proof (intro ballI impI)
    fix r assume r: "r \<in> set (memories (run calls d1))" "row_id r = uuid"
    from run_frame[OF r(1)] obtain r0 where r0: "r0 \<in> set (memories d1)" "unchanged_fields r0 r"
      by blast
    with r(2) have "row_id r0 = uuid" by (simp add: unchanged_fields_def)
    with only r0 show "unchanged_fields ?new r" by simp
  qed
  with l show "\<exists>r0. lookup_row uuid d1 = Some r0
           \<and> row_importance r0 = (case importance of None \<Rightarrow> 0.5 | Some i \<Rightarrow> i)
           \<and> row_content r0 = content
           \<and> row_type r0 = (case type of Undefined \<Rightarrow> Some ''factual'' | Null \<Rightarrow> None
                              | Value t \<Rightarrow> Some t | NotBindable \<Rightarrow> None)
           \<and> row_metadata r0 = (case metadata of None \<Rightarrow> None
                                  | Some j \<Rightarrow> if truthy j then Some j else None)
           \<and> row_created_at r0 = now
           \<and> (\<forall>r\<in>set (memories (run calls d1)). row_id r = uuid \<longrightarrow>
                 row_importance r = row_importance r0 \<and> row_content r = row_content r0
                 \<and> row_type r = row_type r0 \<and> row_metadata r = row_metadata r0
                 \<and> row_created_at r = row_created_at r0)"
    by (simp add: new_row_def unchanged_fields_def)
qed

theorem record_fields_fixed_at_creation_witness:
  "store ''id-1'' ''2026-01-01T00:00:00.000Z'' ''User prefers Python'' (Value ''relational'')
      (Some 0.8) None empty_db = Inr (\<lparr>store_id = ''id-1'', store_success = True\<rparr>, ex_d1)
   \<and> run ex_calls ex_d1 = ex_d3
   \<and> map row_id (memories (run ex_calls ex_d1)) = [''id-1'']
   \<and> map row_importance (memories (run ex_calls ex_d1)) = [0.8]
   \<and> map row_content (memories (run ex_calls ex_d1)) = [''User prefers Python'']
   \<and> map row_type (memories (run ex_calls ex_d1)) = [Some ''relational'']
   \<and> map row_metadata (memories (run ex_calls ex_d1)) = [None]
   \<and> map row_created_at (memories (run ex_calls ex_d1)) = [''2026-01-01T00:00:00.000Z'']"
proof -
  have s: "store ''id-1'' ''2026-01-01T00:00:00.000Z'' ''User prefers Python''
      (Value ''relational'') (Some 0.8) None empty_db
        = Inr (\<lparr>store_id = ''id-1'', store_success = True\<rparr>, ex_d1)"
    by (simp add: store_def empty_db_def ex_d1_def Let_def next_rowid_def memories_ai_def
        fts_insert_or_ignore_def)
  have r: "run ex_calls ex_d1 = ex_d3" by code_simp
  have m: "memories ex_d3 =
      [\<lparr>rowid = 1, row_id = ''id-1'', row_content = ''User prefers Python'',
        row_type = Some ''relational'', row_importance = 0.8, row_activation = 1,
        row_created_at = ''2026-01-01T00:00:00.000Z'',
        row_last_accessed = Some ''2026-01-02T00:00:00.000Z'',
        row_metadata = None\<rparr>]"
    by (simp add: ex_d3_def)
  from record_fields_fixed_at_creation[of ex_calls empty_db "''id-1''" "''2026-01-01T00:00:00.000Z''"
      "''User prefers Python''" "Value ''relational''" "Some 0.8" None
      "\<lparr>store_id = ''id-1'', store_success = True\<rparr>" ex_d1] s r m
  show ?thesis by simp
qed

section \<open>Validation, rate limit and fail-open\<close>

text \<open>
  C7.  A store request whose body has a \<open>content\<close> string of more than 10000 characters
  is answered by the handler with status 400 and code \<open>VALIDATION_ERROR\<close>, whatever the
  memory service is (it is not called) and with the state unchanged.  Through the route, for
  a request that passes the authentication, the response has status 400 and code
  \<open>VALIDATION_ERROR\<close> and the files of the users are unchanged.
\<close>

theorem store_rejects_long_content:
  assumes "req_json request = Some body"
    and "field body ''content'' = Some (JStr content)"
    and "length content > 10000"
  shows \<open>store_handler service uuid now request auth st
           = (Inr \<lparr>resp_status = 400, resp_headers = [],
                   resp_json = ErrorJson
                     \<lparr>err_error = Text ''"content" must be less than 10000 characters'',
                      err_code = ''VALIDATION_ERROR'', err_details = None\<rparr>\<rparr>, st)
         \<and> (authenticateRequest env sb clock request = Inr (AuthOk auth, ws) \<longrightarrow>
              (\<exists>response writes.
                  POST_store uuid now env sb sb' clock request files = (Inr response, writes, files)
                  \<and> resp_status response = 400
                  \<and> resp_json response = ErrorJson
                       \<lparr>err_error = Text ''"content" must be less than 10000 characters'',
                        err_code = ''VALIDATION_ERROR'', err_details = None\<rparr>))\<close>
proof (intro conjI impI)
  show \<open>store_handler service uuid now request auth st
           = (Inr \<lparr>resp_status = 400, resp_headers = [],
                   resp_json = ErrorJson
                     \<lparr>err_error = Text ''"content" must be less than 10000 characters'',
                      err_code = ''VALIDATION_ERROR'', err_details = None\<rparr>\<rparr>, st)\<close>
    using store_handler_long_content[OF assms] by (simp add: api_error_def)
next
  assume a: "authenticateRequest env sb clock request = Inr (AuthOk auth, ws)"
  have h: \<open>store_handler getMemoryService uuid now request auth files
           = (Inr (api_error (Text ''"content" must be less than 10000 characters'')
                     ''VALIDATION_ERROR'' 400), files)\<close>
    by (rule store_handler_long_content[OF assms])
  from withAuth_AuthOk[where handler="store_handler getMemoryService uuid now" and sb'=sb', OF a h] show \<open>\<exists>response writes.
                  POST_store uuid now env sb sb' clock request files = (Inr response, writes, files)
                  \<and> resp_status response = 400
                  \<and> resp_json response = ErrorJson
                       \<lparr>err_error = Text ''"content" must be less than 10000 characters'',
                        err_code = ''VALIDATION_ERROR'', err_details = None\<rparr>\<close>
    by (auto simp: POST_store_def api_error_def)
qed

text \<open>
  C9.  A request with a valid key, for which the usage count of the last 60 seconds is read
  and has reached the ceiling of the tier, is answered with status 429, the headers
  \<open>X-RateLimit-Remaining: 0\<close> and \<open>Retry-After: 60\<close> and the code
  \<open>RATE_LIMITED\<close>.  The answer is the same for every handler and the state is unchanged:
  the handler is not called.
\<close>

theorem rate_limited_request_refused:
  assumes "extractBearerToken request = Some apiKey"
    and "validateApiKey env sb (t_last_used clock) apiKey = Inr (v, ws)"
    and "valid v" and "user v = Some (uid, t)"
    and "getSupabaseAdmin env sb = Inr sb"
    and "count_usage sb uid (t_quota clock - 60000) = Inr count"
    and "tier_limit env t = Some limit"
    and "limit \<le> (case count of None \<Rightarrow> 0 | Some c \<Rightarrow> int c)"
  shows "withAuth handler env sb sb' clock request st =
           (Inr \<lparr>resp_status = 429,
                 resp_headers = [(''X-RateLimit-Remaining'', ''0''),
                                 (''X-RateLimit-Reset'',
                                    string_of_int (rate_limit_reset (t_reset clock))),
                                 (''Retry-After'', ''60'')],
                 resp_json = ErrorJson \<lparr>err_error = Text ''Rate limit exceeded'',
                                         err_code = ''RATE_LIMITED'',
                                         err_details = Some (60, t)\<rparr>\<rparr>,
            ws, st)"
proof -
  from assms(5-8) have "checkQuota env sb (t_quota clock) uid t
      = Inr \<lparr>allowed = False, remaining = Some (max 0 (limit - (case count of None \<Rightarrow> 0 | Some c \<Rightarrow> int c)))\<rparr>"
    by (simp add: checkQuota_def Let_def)
  with assms(1-4) show ?thesis
    by (simp add: withAuth_def authenticateRequest_def)
qed

text \<open>
  C10.  When the usage count query fails, \<open>checkQuota\<close> reports the request as allowed;
  a request with a valid key is then authenticated, the handler is called, and its response
  and state are what the wrapper returns.
\<close>

theorem quota_check_failure_fails_open:
  assumes "getSupabaseAdmin env sb = Inr sb"
    and "count_usage sb uid (t_quota clock - 60000) = Inl err"
    and "extractBearerToken request = Some apiKey"
    and "validateApiKey env sb (t_last_used clock) apiKey = Inr (v, ws)"
    and "valid v" and "user v = Some (uid, t)"
    and "handler request \<lparr>auth_userId = uid, auth_tier = t\<rparr> st = (Inr response, st')"
  shows "checkQuota env sb (t_quota clock) uid t = Inr \<lparr>allowed = True, remaining = Some 0\<rparr>
       \<and> authenticateRequest env sb clock request
            = Inr (AuthOk \<lparr>auth_userId = uid, auth_tier = t\<rparr>, ws)
       \<and> (\<exists>final. withAuth handler env sb sb' clock request st
                     = (Inr final, ws @ [InsertUsageLog uid (req_pathname request) (t_log clock)], st')
              \<and> resp_status final = resp_status response
              \<and> resp_json final = resp_json response)"
proof -
  from assms(1,2) have q: "checkQuota env sb (t_quota clock) uid t = Inr \<lparr>allowed = True, remaining = Some 0\<rparr>"
    by (simp add: checkQuota_def Let_def)
  with assms(3-6) have a: "authenticateRequest env sb clock request
            = Inr (AuthOk \<lparr>auth_userId = uid, auth_tier = t\<rparr>, ws)"
    by (simp add: authenticateRequest_def)
  from withAuth_AuthOk[where handler=handler and sb'=sb', OF a assms(7)] q a show ?thesis by auto
qed

lemma ex_token_test: "extractBearerToken ex_long_request = Some ''test-key-for-development''"
  by code_simp

lemma ex_auth_test:
  "authenticateRequest ex_penv ex_sb ex_clock ex_long_request = Inr (AuthOk ex_test_auth, [])"
  by (simp add: authenticateRequest_def ex_token_test validateApiKey_def ex_penv_def unset_def
      checkQuota_def getSupabaseAdmin_def ex_sb_def ex_test_auth_def)

theorem store_rejects_long_content_witness:
  \<open>req_json ex_long_request = Some ex_long_body
   \<and> field ex_long_body ''content'' = Some (JStr ex_long_content)
   \<and> length ex_long_content = 10001
   \<and> store_handler getMemoryService ''id-2'' ''2026-01-03T00:00:00.000Z'' ex_long_request
        ex_test_auth ex_files
       = (Inr \<lparr>resp_status = 400, resp_headers = [],
               resp_json = ErrorJson
                 \<lparr>err_error = Text ''"content" must be less than 10000 characters'',
                  err_code = ''VALIDATION_ERROR'', err_details = None\<rparr>\<rparr>, ex_files)
   \<and> authenticateRequest ex_penv ex_sb ex_clock ex_long_request = Inr (AuthOk ex_test_auth, [])
   \<and> (\<exists>response writes.
          POST_store ''id-2'' ''2026-01-03T00:00:00.000Z'' ex_penv ex_sb ex_sb ex_clock
            ex_long_request ex_files = (Inr response, writes, ex_files)
          \<and> resp_status response = 400
          \<and> resp_json response = ErrorJson
               \<lparr>err_error = Text ''"content" must be less than 10000 characters'',
                err_code = ''VALIDATION_ERROR'', err_details = None\<rparr>)\<close>
proof -
  have h1: "req_json ex_long_request = Some ex_long_body" by (simp add: ex_long_request_def)
  have h2: "field ex_long_body ''content'' = Some (JStr ex_long_content)"
    by (simp add: field_def ex_long_body_def)
  have h3: "length ex_long_content > 10000" by (simp add: ex_long_content_def)
  have h4: "length ex_long_content = 10001" by (simp add: ex_long_content_def)
  from store_rejects_long_content[OF h1 h2 h3, of getMemoryService "''id-2''"
      "''2026-01-03T00:00:00.000Z''" ex_test_auth ex_files ex_penv ex_sb ex_clock "[]" ex_sb ex_files]
    h1 h2 h4 ex_auth_test
  show ?thesis by simp
qed

theorem rate_limited_request_refused_witness:
  "extractBearerToken ex_free_request = Some ''bcb_free''
   \<and> validateApiKey ex_penv ex_sb (t_last_used ex_clock) ''bcb_free''
        = Inr (\<lparr>valid = True, user = Some (''u1'', free), verror = None\<rparr>,
               [UpdateLastUsed ''k1'' 1767312000000])
   \<and> count_usage ex_sb ''u1'' (t_quota ex_clock - 60000) = Inr (Some 10)
   \<and> tier_limit ex_penv free = Some 10
   \<and> withAuth (consolidate_handler getMemoryService) ex_penv ex_sb ex_sb ex_clock
        ex_free_request ex_files =
           (Inr \<lparr>resp_status = 429,
                 resp_headers = [(''X-RateLimit-Remaining'', ''0''),
                                 (''X-RateLimit-Reset'', ''1767312061''),
                                 (''Retry-After'', ''60'')],
                 resp_json = ErrorJson \<lparr>err_error = Text ''Rate limit exceeded'',
                                         err_code = ''RATE_LIMITED'',
                                         err_details = Some (60, free)\<rparr>\<rparr>,
            [UpdateLastUsed ''k1'' 1767312000000], ex_files)"
proof -
  have h1: "extractBearerToken ex_free_request = Some ''bcb_free''" by code_simp
  have h2: "validateApiKey ex_penv ex_sb (t_last_used ex_clock) ''bcb_free''
        = Inr (\<lparr>valid = True, user = Some (''u1'', free), verror = None\<rparr>,
               [UpdateLastUsed ''k1'' 1767312000000])"
    by (simp add: validateApiKey_def ex_penv_def unset_def getSupabaseAdmin_def ex_sb_def
        ex_clock_def)
  have h5: "getSupabaseAdmin ex_penv ex_sb = Inr ex_sb"
    by (simp add: getSupabaseAdmin_def ex_penv_def unset_def)
  have h6: "count_usage ex_sb ''u1'' (t_quota ex_clock - 60000) = Inr (Some 10)"
    by (simp add: ex_sb_def)
  have h7: "tier_limit ex_penv free = Some 10" by code_simp
  have h8: "(10::int) \<le> (case Some (10::nat) of None \<Rightarrow> 0 | Some c \<Rightarrow> int c)" by simp
  have r: "string_of_int (rate_limit_reset (t_reset ex_clock)) = ''1767312061''"
    by (simp add: string_of_int_def rate_limit_reset_def ex_clock_def string_of_nat.simps
        digit_char_def)
  from rate_limited_request_refused[OF h1 h2 _ _ h5 h6 h7 h8,
      of "consolidate_handler getMemoryService" ex_sb ex_files]
    h1 h2 h6 h7 r
  show ?thesis by simp
qed

theorem quota_check_failure_fails_open_witness:
  "count_usage ex_sb ''test-user'' (t_quota ex_clock - 60000) = Inl ''timeout''
   \<and> extractBearerToken ex_test_request = Some ''test-key-for-development''
   \<and> validateApiKey ex_penv ex_sb (t_last_used ex_clock) ''test-key-for-development''
        = Inr (\<lparr>valid = True, user = Some (''test-user'', pro), verror = None\<rparr>, [])
   \<and> checkQuota ex_penv ex_sb (t_quota ex_clock) ''test-user'' pro
        = Inr \<lparr>allowed = True, remaining = Some 0\<rparr>
   \<and> authenticateRequest ex_penv ex_sb ex_clock ex_test_request
        = Inr (AuthOk \<lparr>auth_userId = ''test-user'', auth_tier = pro\<rparr>, [])
   \<and> fst (consolidate_handler getMemoryService ex_test_request
             \<lparr>auth_userId = ''test-user'', auth_tier = pro\<rparr> ex_files)
        = Inr (json_response (ConsolidateJson \<lparr>consolidated = True,
                 stats = \<lparr>memories_before = 1, memories_after = 1, merged = 0,
                           forgotten = 0\<rparr>\<rparr>) 200)
   \<and> (\<exists>final. fst (withAuth (consolidate_handler getMemoryService) ex_penv ex_sb ex_sb ex_clock
                       ex_test_request ex_files) = Inr final
          \<and> resp_status final = 200
          \<and> resp_json final = ConsolidateJson \<lparr>consolidated = True,
                 stats = \<lparr>memories_before = 1, memories_after = 1, merged = 0,
                           forgotten = 0\<rparr>\<rparr>)"
proof -
  have h1: "getSupabaseAdmin ex_penv ex_sb = Inr ex_sb"
    by (simp add: getSupabaseAdmin_def ex_penv_def unset_def)
  have h2: "count_usage ex_sb ''test-user'' (t_quota ex_clock - 60000) = Inl ''timeout''"
    by (simp add: ex_sb_def)
  have h3: "extractBearerToken ex_test_request = Some ''test-key-for-development''" by code_simp
  have h4: "validateApiKey ex_penv ex_sb (t_last_used ex_clock) ''test-key-for-development''
        = Inr (\<lparr>valid = True, user = Some (''test-user'', pro), verror = None\<rparr>, [])"
    by (simp add: validateApiKey_def ex_penv_def unset_def)
  have h7a: "fst (consolidate_handler getMemoryService ex_test_request
             \<lparr>auth_userId = ''test-user'', auth_tier = pro\<rparr> ex_files)
        = Inr (json_response (ConsolidateJson \<lparr>consolidated = True,
                 stats = \<lparr>memories_before = 1, memories_after = 1, merged = 0,
                           forgotten = 0\<rparr>\<rparr>) 200)"
    by (simp add: consolidate_handler_def getMemoryService_def with_db_def getDb_def ex_files_def
        ex_d1_def consolidate_def Let_def sql_update_def sql_delete_def)
  then have h7: "consolidate_handler getMemoryService ex_test_request
             \<lparr>auth_userId = ''test-user'', auth_tier = pro\<rparr> ex_files
        = (Inr (json_response (ConsolidateJson \<lparr>consolidated = True,
                 stats = \<lparr>memories_before = 1, memories_after = 1, merged = 0,
                           forgotten = 0\<rparr>\<rparr>) 200),
           snd (consolidate_handler getMemoryService ex_test_request
             \<lparr>auth_userId = ''test-user'', auth_tier = pro\<rparr> ex_files))"
    by (simp add: prod_eq_iff)
  from quota_check_failure_fails_open[where handler = "consolidate_handler getMemoryService"
      and sb' = ex_sb, OF h1 h2 h3 h4 _ _ h7]
    h2 h3 h4 h7a
  show ?thesis by (auto simp: json_response_def)
qed

section \<open>The claims on recall at the example states\<close>

lemma ex_reachable_d2: "reachable ex_d2"
proof -
  have s: "store ''id-1'' ''2026-01-01T00:00:00.000Z'' ''User prefers Python''
      (Value ''relational'') (Some 0.8) None empty_db
        = Inr (\<lparr>store_id = ''id-1'', store_success = True\<rparr>, ex_d1)"
    by (simp add: store_def empty_db_def ex_d1_def Let_def next_rowid_def memories_ai_def
        fts_insert_or_ignore_def)
  have c: "snd (consolidate ex_d1) = ex_d2" by code_simp
  from reachable.consolidate[OF reachable.store[OF reachable.init s]] c show ?thesis by simp
qed

lemma ex_recall_d2:
  "recall ex_env ''Python'' 10 None ex_d2 = Inr (\<lparr>results = [ex_m], took_ms = 4\<rparr>, ex_d3)"
  by code_simp

theorem recall_boosts_returned_rows_witness:
  "reachable ex_d2
   \<and> recall ex_env ''Python'' 10 None ex_d2 = Inr (\<lparr>results = [ex_m], took_ms = 4\<rparr>, ex_d3)
   \<and> (\<exists>r r'. lookup_row ''id-1'' ex_d2 = Some r \<and> lookup_row ''id-1'' ex_d3 = Some r'
         \<and> row_last_accessed r' = Some ''2026-01-02T00:00:00.000Z''
         \<and> row_activation r = 0.95 \<and> row_activation r' = 1
         \<and> row_activation r < row_activation r')"
proof -
  have m: "ex_m \<in> set (results \<lparr>results = [ex_m], took_ms = 4\<rparr>)" by simp
  from recall_boosts_returned_rows[OF ex_reachable_d2 ex_recall_d2 m]
    ex_reachable_d2 ex_recall_d2
  show ?thesis
    by (auto simp: lookup_row_def ex_d2_def ex_d3_def ex_m_def ex_env_def)
qed

theorem recall_returns_values_read_before_update_witness:
  "reachable ex_d2
   \<and> recall ex_env ''Python'' 10 None ex_d2 = Inr (\<lparr>results = [ex_m], took_ms = 4\<rparr>, ex_d3)
   \<and> mem_activation ex_m = 0.95 \<and> mem_last_accessed ex_m = None
   \<and> (\<exists>r r'. lookup_row ''id-1'' ex_d2 = Some r \<and> lookup_row ''id-1'' ex_d3 = Some r'
         \<and> ex_m = to_memory r
         \<and> row_activation r = 0.95 \<and> row_last_accessed r = None
         \<and> row_activation r' = 1
         \<and> row_last_accessed r' = Some ''2026-01-02T00:00:00.000Z'')"
proof -
  have m: "ex_m \<in> set (results \<lparr>results = [ex_m], took_ms = 4\<rparr>)" by simp
  from recall_returns_values_read_before_update[OF ex_reachable_d2 ex_recall_d2 m]
    ex_reachable_d2 ex_recall_d2
  show ?thesis
    by (auto simp: lookup_row_def ex_d2_def ex_d3_def ex_m_def ex_env_def to_memory_def)
qed

theorem activation_in_unit_interval_witness:
  "reachable ex_d2 \<and> map row_activation (memories ex_d2) = [0.95]
   \<and> list_all (\<lambda>r. 0 \<le> row_activation r \<and> row_activation r \<le> 1) (memories ex_d2)"
  using activation_in_unit_interval[OF ex_reachable_d2] ex_reachable_d2
  by (simp add: ex_d2_def)

theorem recall_respects_limit_and_types_witness:
  "recall ex_env ''Python'' 10 (Some [''relational'']) ex_d2
      = Inr (\<lparr>results = [ex_m], took_ms = 4\<rparr>, ex_d3)
   \<and> real (length (results \<lparr>results = [ex_m], took_ms = 4\<rparr>)) \<le> 10
   \<and> mem_type ex_m = Some ''relational''
   \<and> fst (recall_handler getMemoryService ex_env ex_recall_request ex_test_auth ex_files)
        = Inr (json_response (RecallJson \<lparr>results = [ex_m1], took_ms = 4\<rparr>) 200)
   \<and> limit_or_default (field ex_recall_body ''limit'') = JNum 2
   \<and> real (length (results \<lparr>results = [ex_m1], took_ms = 4\<rparr>)) \<le> 2
   \<and> mem_type ex_m1 = Some ''relational''"
proof -
  have r: "recall ex_env ''Python'' 10 (Some [''relational'']) ex_d2
      = Inr (\<lparr>results = [ex_m], took_ms = 4\<rparr>, ex_d3)"
    by code_simp
  have h: "fst (recall_handler getMemoryService ex_env ex_recall_request ex_test_auth ex_files)
        = Inr (json_response (RecallJson \<lparr>results = [ex_m1], took_ms = 4\<rparr>) 200)"
    by code_simp
  have l: "limit_or_default (field ex_recall_body ''limit'') = JNum 2" by code_simp
  from recall_respects_limit_and_types[of ex_env "''Python''" 10 "Some [''relational'']" ex_d2
      "\<lparr>results = [ex_m], took_ms = 4\<rparr>" ex_d3 ex_env ex_recall_request ex_test_auth ex_files
      "json_response (RecallJson \<lparr>results = [ex_m1], took_ms = 4\<rparr>) 200"
      "snd (recall_handler getMemoryService ex_env ex_recall_request ex_test_auth ex_files)"
      "\<lparr>results = [ex_m1], took_ms = 4\<rparr>"] r h l
  show ?thesis
    by (simp add: prod_eq_iff json_response_def ex_m_def ex_m1_def)
qed

end
